theory Spec2Isabelle
  imports Main
begin

section \<open>JavaScript values\<close>

text \<open>
  The option payloads that \<open>getConfig\<close> only passes on (babel options, theme variables,
  aliases, plugin arguments) are JavaScript values.  \<open>Ext\<close> stands for a value of an
  external library that is only passed on: a function, a plugin instance, a formatter.
  An object is an association list; a key is looked up with \<open>map_of\<close>.
\<close>

datatype jsval =
    Undefined
  | Null
  | Bool bool
  | Num int
  | Str string
  | Arr "jsval list"
  | Obj "(string \<times> jsval) list"
  | Ext string "jsval list"

type_synonym obj = "(string \<times> jsval) list"

text \<open>JavaScript truthiness, as \<open>if (v)\<close>, \<open>v || d\<close> and \<open>v ? a : b\<close> test it.\<close>

fun truthy :: "jsval \<Rightarrow> bool" where
  "truthy Undefined = False"
| "truthy Null = False"
| "truthy (Bool b) = b"
| "truthy (Num n) = (n \<noteq> 0)"
| "truthy (Str s) = (s \<noteq> [])"
| "truthy (Arr xs) = True"
| "truthy (Obj kvs) = True"
| "truthy (Ext n args) = True"

text \<open>A string that may be undefined (an option, an environment variable): truthy when
  it is defined and not empty.\<close>

fun truthyS :: "string option \<Rightarrow> bool" where
  "truthyS None = False"
| "truthyS (Some s) = (s \<noteq> [])"

text \<open>\<open>o.k\<close> on an object: \<open>undefined\<close> when the key is absent.\<close>

definition getProp :: "obj \<Rightarrow> string \<Rightarrow> jsval" where
  "getProp kvs k = (case map_of kvs k of None \<Rightarrow> Undefined | Some v \<Rightarrow> v)"

text \<open>Assignment \<open>o[k] = v\<close>: an existing key keeps its place, a new key goes last.\<close>

fun obj_set :: "string \<Rightarrow> jsval \<Rightarrow> obj \<Rightarrow> obj" where
  "obj_set k v [] = [(k, v)]"
| "obj_set k v (p # ps) = (if fst p = k then (k, v) # ps else p # obj_set k v ps)"

text \<open>Object spread \<open>{...a, ...b}\<close>: the keys of \<open>b\<close> are assigned onto a copy of \<open>a\<close>,
  in order.\<close>

definition spread :: "obj \<Rightarrow> obj \<Rightarrow> obj" where
  "spread a b = fold (\<lambda>(k, v). obj_set k v) b a"

section \<open>Node's path module (POSIX)\<close>

definition slash :: char where
  "slash = CHR ''/''"

fun splitSlash :: "string \<Rightarrow> string list" where
  "splitSlash [] = [[]]"
| "splitSlash (c # cs) =
     (if c = slash then [] # splitSlash cs
      else (case splitSlash cs of [] \<Rightarrow> [[c]] | s # ss \<Rightarrow> (c # s) # ss))"

fun joinSlash :: "string list \<Rightarrow> string" where
  "joinSlash [] = []"
| "joinSlash [s] = s"
| "joinSlash (s # t # ss) = s @ [slash] @ joinSlash (t # ss)"

text \<open>\<open>normalizeString\<close> of Node's path module on the segments of a path: empty segments
  and \<open>.\<close> are dropped, \<open>..\<close> removes the segment before it; above the root \<open>..\<close> is
  kept only when \<open>allowAboveRoot\<close>.  The stack holds the segments kept so far, last first.\<close>

fun normalizeSegs :: "bool \<Rightarrow> string list \<Rightarrow> string list \<Rightarrow> string list" where
  "normalizeSegs allowAboveRoot st [] = rev st"
| "normalizeSegs allowAboveRoot st (s # ss) =
     (if s = [] \<or> s = ''.'' then normalizeSegs allowAboveRoot st ss
      else if s = ''..'' then
        (case st of
           [] \<Rightarrow> normalizeSegs allowAboveRoot (if allowAboveRoot then [''..''] else []) ss
         | t # ts \<Rightarrow>
             if t = ''..'' then normalizeSegs allowAboveRoot (''..'' # st) ss
             else normalizeSegs allowAboveRoot ts ss)
      else normalizeSegs allowAboveRoot (s # st) ss)"

definition isAbsolute :: "string \<Rightarrow> bool" where
  "isAbsolute p = (case p of [] \<Rightarrow> False | c # cs \<Rightarrow> c = slash)"

text \<open>\<open>path.resolve(...args)\<close>: the arguments are taken from the right until an absolute
  path is built; the process's working directory is used when none of them is absolute.\<close>

fun resolveAcc :: "string list \<Rightarrow> string \<Rightarrow> string" where
  "resolveAcc [] acc = acc"
| "resolveAcc (p # ps) acc =
     (if p = [] then resolveAcc ps acc
      else if isAbsolute p then p @ [slash] @ acc
      else resolveAcc ps (p @ [slash] @ acc))"

definition path_resolve :: "string \<Rightarrow> string list \<Rightarrow> string" where
  "path_resolve process_cwd args =
     (let resolvedPath = resolveAcc (rev args @ [process_cwd]) [];
          resolvedAbsolute = isAbsolute resolvedPath;
          n = joinSlash (normalizeSegs (\<not> resolvedAbsolute) [] (splitSlash resolvedPath))
      in if resolvedAbsolute then slash # n else if n \<noteq> [] then n else ''.'')"

text \<open>\<open>path.join(...args)\<close>: the non-empty arguments joined by a separator, then
  \<open>path.normalize\<close>, which keeps a trailing separator.\<close>

definition path_normalize :: "string \<Rightarrow> string" where
  "path_normalize p =
     (if p = [] then ''.''
      else
        let isAbs = isAbsolute p;
            trailingSeparator = (last p = slash);
            n = joinSlash (normalizeSegs (\<not> isAbs) [] (splitSlash p));
            n1 = (if n = [] \<and> \<not> isAbs then ''.'' else n);
            n2 = (if n1 \<noteq> [] \<and> trailingSeparator then n1 @ [slash] else n1)
        in if isAbs then slash # n2 else n2)"

definition path_join :: "string list \<Rightarrow> string" where
  "path_join args =
     (let joined = joinSlash (filter (\<lambda>a. a \<noteq> []) args)
      in if joined = [] then ''.'' else path_normalize joined)"

text \<open>\<open>path.dirname\<close>: everything before the last separator.\<close>

definition path_dirname :: "string \<Rightarrow> string" where
  "path_dirname p =
     (let segs = splitSlash p
      in if length segs \<le> 1 then ''.''
         else let d = joinSlash (butlast segs)
              in if d = [] then [slash] else d)"

section \<open>Inputs of the synthesis\<close>

text \<open>The options record \<open>opts\<close>.  A field that the code only tests for truthiness is a
  \<open>bool\<close>; a field that may be missing is an \<open>option\<close>; a payload that is passed on is a
  \<open>jsval\<close>.\<close>

record opts =
  cwd :: "string option"
  theme :: jsval
  browserslist :: jsval
  extraPostCSSPlugins :: "jsval list option"
  disableCSSModules :: bool
  disableCSSSourceMap :: bool
  sass :: jsval
  commons :: "jsval list option"
  outputPath :: "string option"
  copy :: jsval
  hash :: bool
  babel :: "obj option"
  devtool :: "string option"
  entry :: jsval
  publicPath :: "string option"
  extraResolveModules :: "string list option"
  extraResolveExtensions :: "string list option"
  alias_opt :: obj
  extraBabelIncludes :: "string list option"
  manifest :: "obj option"
  define_consts :: "obj option"
  ignoreMomentLocale :: bool
  externals :: jsval

text \<open>The environment flags \<open>process.env\<close>: each is a string or undefined.\<close>

record env =
  NODE_ENV :: "string option"
  NO_COMPRESS :: "string option"
  DISABLE_BABELRC :: "string option"
  DISABLE_TSLINT :: "string option"
  DISABLE_ESLINT :: "string option"
  SOCKET_SERVER :: "string option"
  ANALYZE :: "string option"
  ANALYZE_PORT :: "string option"
  TS_TYPECHECK :: "string option"
  PUBLIC_PATH :: "string option"

text \<open>
  What the synthesis reads of the machine it runs on:
  \<^item> \<open>process_cwd\<close> is \<open>process.cwd()\<close> and \<open>module_dirname\<close> is \<open>__dirname\<close>;
  \<^item> \<open>node_modules m\<close> is the path \<open>require.resolve(m)\<close> returns from the package's own
    directory, \<open>None\<close> when it throws;
  \<^item> \<open>existsSync\<close> is the one of \<open>fs\<close>;
  \<^item> \<open>require_file p\<close> is the value \<open>require(p)\<close> loads from the file \<open>p\<close>, \<open>None\<close> when it
    throws;
  \<^item> \<open>resolveSync m basedir\<close> is \<open>resolve.sync(m, {basedir})\<close>, \<open>None\<close> when it throws;
  \<^item> \<open>readRc\<close>: Modelled from the spec: \<open>./readRc\<close> is not among the sources; it is the
    "lint-configuration-file reader (parses a structured rule file, may fail)".  \<open>readRc p\<close>
    is the object parsed from the file \<open>p\<close>, \<open>None\<close> when the reader throws.
\<close>

record world =
  process_cwd :: string
  module_dirname :: string
  node_modules :: "string \<Rightarrow> string option"
  existsSync :: "string \<Rightarrow> bool"
  require_file :: "string \<Rightarrow> jsval option"
  resolveSync :: "string \<Rightarrow> string \<Rightarrow> string option"
  readRc :: "string \<Rightarrow> obj option"

datatype error = AssertionError string | CannotFindModule string

text \<open>Sequencing: an exception of the first step is the result.\<close>

fun thenE :: "error + 'a \<Rightarrow> ('a \<Rightarrow> error + 'b) \<Rightarrow> error + 'b" where
  "thenE (Inl e) f = Inl e"
| "thenE (Inr x) f = f x"

definition require_resolve :: "world \<Rightarrow> string \<Rightarrow> error + string" where
  "require_resolve w m =
     (case node_modules w m of None \<Rightarrow> Inl (CannotFindModule m) | Some p \<Rightarrow> Inr p)"

section \<open>The pipeline descriptor\<close>

datatype cond = Regex string | Path string | Conds "cond list"

datatype use_item = LoaderPath string | LoaderObj string jsval

text \<open>The \<open>use\<close> of a rule: a chain, or what \<open>ExtractTextPlugin.extract({use: chain})\<close>
  returns for a chain (the plugin is an external library).\<close>

datatype rule_use = Use "use_item list" | ExtractTextPlugin_extract "use_item list"

record rule =
  test :: "cond option"
  include_cond :: "cond option"
  exclude :: "cond option"
  enforce :: "string option"
  use :: "rule_use option"
  loader :: "string option"
  options :: "jsval option"

definition emptyRule :: rule where
  "emptyRule = \<lparr>test = None, include_cond = None, exclude = None, enforce = None,
     use = None, loader = None, options = None\<rparr>"

datatype plugin =
    HotModuleReplacementPlugin
  | WatchMissingNodeModulesPlugin string
  | SystemBellWebpackPlugin
  | SourceMapDevToolPlugin
  | OccurrenceOrderPlugin
  | ModuleConcatenationPlugin
  | ExtractTextPlugin obj
  | ManifestPlugin obj
  | UglifyJsPlugin obj
  | DefinePlugin obj
  | BundleAnalyzerPlugin obj
  | CaseSensitivePathsPlugin
  | LoaderOptionsPlugin obj
  | ForkTsCheckerWebpackPlugin
  | IgnorePlugin
  | CommonsChunkPlugin jsval
  | CopyWebpackPlugin jsval

record output_section =
  path :: string
  pathinfo :: bool
  filename :: string
  publicPath_out :: "string option"
  chunkFilename :: string

record resolve_section =
  modules :: "string list"
  extensions :: "string list"
  alias_map :: obj

record config =
  bail :: bool
  devtool_mode :: "string option"
  entry_points :: jsval
  output_sec :: output_section
  resolve :: resolve_section
  module_rules :: "rule list"
  plugins :: "plugin list"
  externals_out :: jsval
  node :: obj
  performance :: obj

text \<open>
  The modules of the repository that \<open>getConfig\<close> imports and that are not among the
  sources are parameters of the synthesis: the default configurations
  (\<open>./defaultConfigs/uglifyJS\<close>, \<open>babel\<close>, \<open>browsers\<close>), \<open>normalizeTheme\<close>,
  \<open>stringifyObject\<close>, \<open>stripLastSlash\<close> of \<open>./utils\<close> and the override hook
  \<open>applyWebpackConfig\<close>.
\<close>

record deps =
  uglifyJSConfig :: obj
  babelConfig :: obj
  defaultBrowsers :: jsval
  normalizeTheme :: "jsval \<Rightarrow> jsval"
  stringifyObject :: "obj \<Rightarrow> obj"
  stripLastSlash :: "string \<Rightarrow> string"
  applyWebpackConfig :: "config \<Rightarrow> config"

section \<open>Style rules\<close>

definition isDev :: "env \<Rightarrow> bool" where
  "isDev e = (NODE_ENV e = Some ''development'')"

text \<open>\<open>plugins\<close> is a function that is called later, by the post-processor; the value
  below is the list it returns.\<close>

definition postcssOptions :: "deps \<Rightarrow> opts \<Rightarrow> jsval" where
  "postcssOptions d opts =
     Obj [(''ident'', Str ''postcss''),
          (''plugins'', Ext ''function''
             [Arr ([Ext ''postcss-flexbugs-fixes'' [],
                    Ext ''autoprefixer''
                      [Obj [(''browsers'',
                               if truthy (browserslist opts) then browserslist opts
                               else defaultBrowsers d),
                            (''flexbox'', Str ''no-2009'')]]]
                   @ (case extraPostCSSPlugins opts of None \<Rightarrow> [] | Some ps \<Rightarrow> ps))])]"

definition cssModulesConfig :: "opts \<Rightarrow> obj" where
  "cssModulesConfig opts =
     (if disableCSSModules opts then []
      else [(''modules'', Bool True), (''localIdentName'', Str ''[local]___[hash:base64:5]'')])"

definition lessOptions :: "deps \<Rightarrow> opts \<Rightarrow> jsval" where
  "lessOptions d opts = Obj [(''modifyVars'', normalizeTheme d (theme opts))]"

definition cssOptions :: "env \<Rightarrow> opts \<Rightarrow> obj" where
  "cssOptions e opts =
     spread [(''importLoaders'', Num 1)]
       (if isDev e then []
        else [(''minimize'', Bool (\<not> truthyS (NO_COMPRESS e))),
              (''sourceMap'', Bool (\<not> disableCSSSourceMap opts))])"

text \<open>\<open>getCSSLoader({cssModules, less, sass, sassOptions})\<close>.  Only the resolution of
  \<open>sass-loader\<close> is probed inside a \<open>try\<close>; every other \<open>require.resolve\<close> of the chain
  throws out of \<open>getConfig\<close> when it fails.\<close>

definition getCSSLoader ::
  "deps \<Rightarrow> world \<Rightarrow> env \<Rightarrow> opts \<Rightarrow> bool \<Rightarrow> bool \<Rightarrow> bool \<Rightarrow> jsval \<Rightarrow> error + use_item list" where
  "getCSSLoader d w e opts cssModules less_on sass_on sassOptions =
     (let hasSassLoader = (node_modules w ''sass-loader'' \<noteq> None) in
      thenE (require_resolve w ''style-loader'') (\<lambda>style_loader.
      thenE (require_resolve w ''css-loader'') (\<lambda>css_loader.
      thenE (require_resolve w ''postcss-loader'') (\<lambda>postcss_loader.
      thenE (if less_on
             then thenE (require_resolve w ''less-loader'')
                    (\<lambda>less_loader. Inr [LoaderObj less_loader (lessOptions d opts)])
             else Inr []) (\<lambda>less_step.
      thenE (if sass_on \<and> hasSassLoader
             then thenE (require_resolve w ''sass-loader'')
                    (\<lambda>sass_loader. Inr [LoaderObj sass_loader sassOptions])
             else Inr []) (\<lambda>sass_step.
      Inr ([LoaderPath style_loader,
            LoaderObj css_loader
              (Obj (spread (cssOptions e opts)
                      (if cssModules then cssModulesConfig opts else []))),
            LoaderObj postcss_loader (postcssOptions d opts)]
           @ less_step @ sass_step)))))))"

definition backslash :: char where
  "backslash = CHR 0x5C"

definition re_css :: cond where
  "re_css = Regex (backslash # ''.css$'')"

definition re_less :: cond where
  "re_less = Regex (backslash # ''.less$'')"

definition re_sass :: cond where
  "re_sass = Regex (backslash # ''.(sass|scss)$'')"

definition re_node_modules :: cond where
  "re_node_modules = Regex ''node_modules''"

text \<open>The six style rules as they are constructed (lines 106 to 151).\<close>

definition cssRules_built :: "deps \<Rightarrow> world \<Rightarrow> env \<Rightarrow> opts \<Rightarrow> error + rule list" where
  "cssRules_built d w e opts =
     thenE (getCSSLoader d w e opts True False False Undefined) (\<lambda>u1.
     thenE (getCSSLoader d w e opts False False False Undefined) (\<lambda>u2.
     thenE (getCSSLoader d w e opts True True False Undefined) (\<lambda>u3.
     thenE (getCSSLoader d w e opts False True False Undefined) (\<lambda>u4.
     thenE (getCSSLoader d w e opts True False True (sass opts)) (\<lambda>u5.
     thenE (getCSSLoader d w e opts False False True (sass opts)) (\<lambda>u6.
     Inr [emptyRule\<lparr>test := Some re_css, exclude := Some re_node_modules, use := Some (Use u1)\<rparr>,
          emptyRule\<lparr>test := Some re_css, include_cond := Some re_node_modules, use := Some (Use u2)\<rparr>,
          emptyRule\<lparr>test := Some re_less, exclude := Some re_node_modules, use := Some (Use u3)\<rparr>,
          emptyRule\<lparr>test := Some re_less, include_cond := Some re_node_modules, use := Some (Use u4)\<rparr>,
          emptyRule\<lparr>test := Some re_sass, exclude := Some re_node_modules, use := Some (Use u5)\<rparr>,
          emptyRule\<lparr>test := Some re_sass, include_cond := Some re_node_modules,
            use := Some (Use u6)\<rparr>]))))))"

text \<open>The body of the \<open>forEach\<close> of lines 155 to 159:
  \<open>rule.use = ExtractTextPlugin.extract({use: rule.use.slice(1)})\<close>.  Every style rule
  has a chain as its \<open>use\<close>; a rule of another shape is not among them.\<close>

fun extractRule :: "rule \<Rightarrow> rule" where
  "extractRule r =
     (case use r of
        Some (Use chain) \<Rightarrow> r\<lparr>use := Some (ExtractTextPlugin_extract (drop 1 chain))\<rparr>
      | _ \<Rightarrow> r)"

definition cssRules :: "deps \<Rightarrow> world \<Rightarrow> env \<Rightarrow> opts \<Rightarrow> error + rule list" where
  "cssRules d w e opts =
     thenE (cssRules_built d w e opts) (\<lambda>rules.
       Inr (if \<not> isDev e then map extractRule rules else rules))"

section \<open>Output naming and plugins that depend on the options\<close>

definition commonsPlugins :: "opts \<Rightarrow> plugin list" where
  "commonsPlugins opts =
     map CommonsChunkPlugin (case commons opts of None \<Rightarrow> [] | Some cs \<Rightarrow> cs)"

text \<open>From here on \<open>wd\<close> is \<open>opts.cwd\<close>, which the assertion of line 28 found truthy.\<close>

definition outputPath_of :: "world \<Rightarrow> opts \<Rightarrow> string \<Rightarrow> string" where
  "outputPath_of w opts wd =
     (if truthyS (outputPath opts) then (case outputPath opts of Some p \<Rightarrow> p | None \<Rightarrow> [])
      else path_resolve (process_cwd w) [wd, ''dist''])"

definition copyPlugins :: "world \<Rightarrow> opts \<Rightarrow> string \<Rightarrow> plugin list" where
  "copyPlugins w opts wd =
     (if truthy (copy opts) then [CopyWebpackPlugin (copy opts)] else [])
     @ (if existsSync w (path_resolve (process_cwd w) [wd, ''public''])
        then [CopyWebpackPlugin
                (Arr [Obj [(''from'', Str (path_resolve (process_cwd w) [wd, ''public''])),
                           (''to'', Str (path_resolve (process_cwd w)
                                          [wd, outputPath_of w opts wd]))]])]
        else [])"

definition jsHash :: "env \<Rightarrow> opts \<Rightarrow> string" where
  "jsHash e opts = (if \<not> isDev e \<and> hash opts then ''.[chunkhash:8]'' else [])"

definition cssHash :: "env \<Rightarrow> opts \<Rightarrow> string" where
  "cssHash e opts = (if \<not> isDev e \<and> hash opts then ''.[contenthash:8]'' else [])"

text \<open>An item \<open>{loader: l}\<close> without options is \<open>LoaderObj l Undefined\<close>.\<close>

definition babelUse :: "deps \<Rightarrow> world \<Rightarrow> env \<Rightarrow> opts \<Rightarrow> error + use_item list" where
  "babelUse d w e opts =
     thenE (require_resolve w ''babel-loader'') (\<lambda>babel_loader.
       Inr [LoaderObj (path_join [module_dirname w, ''debugLoader.js'']) Undefined,
            LoaderObj babel_loader
              (Obj (spread (case babel opts of Some b \<Rightarrow> b | None \<Rightarrow> babelConfig d)
                      [(''cacheDirectory'', Bool False),
                       (''babelrc'', Bool (\<not> truthyS (DISABLE_BABELRC e)))]))])"

section \<open>Lint configuration\<close>

record eslintOptions =
  formatter :: jsval
  baseConfig :: jsval
  ignore :: bool
  eslintPath :: string
  useEslintrc :: bool

definition eslintOptions_default :: "world \<Rightarrow> error + eslintOptions" where
  "eslintOptions_default w =
     thenE (require_resolve w ''eslint-config-umi'') (\<lambda>eslint_config_umi.
     thenE (require_resolve w ''eslint'') (\<lambda>eslint.
       Inr \<lparr>formatter = Ext ''eslintFormatter'' [],
            baseConfig = Obj [(''extends'', Arr [Str eslint_config_umi])],
            ignore = False,
            eslintPath = eslint,
            useEslintrc = False\<rparr>))"

text \<open>\<open>v.k\<close> on any value: a \<open>TypeError\<close> (\<open>None\<close>) on \<open>undefined\<close> and \<open>null\<close>, the
  property on an object, and \<open>undefined\<close> on the other values, which have none of the
  properties read here (\<open>dependencies\<close>, \<open>devDependencies\<close>, \<open>eslint\<close>).\<close>

fun propertyOf :: "jsval \<Rightarrow> string \<Rightarrow> jsval option" where
  "propertyOf Undefined k = None"
| "propertyOf Null k = None"
| "propertyOf (Obj kvs) k = Some (getProp kvs k)"
| "propertyOf v k = Some Undefined"

text \<open>Lines 213 to 224.  Whatever is thrown inside the \<open>try\<close> (by \<open>require\<close>, by the
  destructuring, by \<open>dependencies.eslint\<close>, by \<open>resolveSync\<close>) leaves the options as they
  were.\<close>

definition eslintOptions_user :: "world \<Rightarrow> string \<Rightarrow> eslintOptions \<Rightarrow> eslintOptions" where
  "eslintOptions_user w wd eo =
     (case require_file w (path_resolve (process_cwd w) [''package.json'']) of
        None \<Rightarrow> eo
      | Some pkg \<Rightarrow>
          (case (propertyOf pkg ''dependencies'', propertyOf pkg ''devDependencies'') of
             (Some dependencies, Some devDependencies) \<Rightarrow>
               (case propertyOf dependencies ''eslint'' of
                  None \<Rightarrow> eo
                | Some dependencies_eslint \<Rightarrow>
                    if truthy dependencies_eslint \<or> truthy devDependencies then
                      (case resolveSync w ''eslint'' wd of
                         None \<Rightarrow> eo
                       | Some eslintPath' \<Rightarrow> eo\<lparr>eslintPath := eslintPath'\<rparr>)
                    else eo)
           | _ \<Rightarrow> eo))"

text \<open>The entries that \<open>{...v}\<close> copies from a value; the value spread at line 239 is
  always the default \<open>baseConfig\<close> object.\<close>

fun entries :: "jsval \<Rightarrow> obj" where
  "entries (Obj kvs) = kvs"
| "entries v = []"

text \<open>Lines 227 to 246.\<close>

definition eslintOptions_rc :: "world \<Rightarrow> eslintOptions \<Rightarrow> eslintOptions" where
  "eslintOptions_rc w eo =
     (if existsSync w (path_resolve (process_cwd w) [''.eslintrc'']) then
        (case readRc w (path_resolve (process_cwd w) [''.eslintrc'']) of
           None \<Rightarrow> eo
         | Some userRc \<Rightarrow>
             if truthy (getProp userRc ''extends'') then
               eo\<lparr>useEslintrc := True, baseConfig := Bool False, ignore := True\<rparr>
             else
               eo\<lparr>baseConfig := Obj (spread (entries (baseConfig eo)) userRc)\<rparr>)
      else eo)"

definition eslintOptions_obj :: "eslintOptions \<Rightarrow> jsval" where
  "eslintOptions_obj eo =
     Obj [(''formatter'', formatter eo),
          (''baseConfig'', baseConfig eo),
          (''ignore'', Bool (ignore eo)),
          (''eslintPath'', Str (eslintPath eo)),
          (''useEslintrc'', Bool (useEslintrc eo))]"

text \<open>The lint configuration that reaches the descriptor.\<close>

definition eslintOptions_final :: "world \<Rightarrow> string \<Rightarrow> error + eslintOptions" where
  "eslintOptions_final w wd =
     thenE (eslintOptions_default w) (\<lambda>eo.
       Inr (eslintOptions_rc w (eslintOptions_user w wd eo)))"

section \<open>Transformation rules\<close>

definition re_tsx :: cond where
  "re_tsx = Regex (backslash # ''.tsx?$'')"

definition re_js_jsx :: cond where
  "re_js_jsx = Regex (backslash # ''.(js|jsx)$'')"

definition re_ts_tsx :: cond where
  "re_ts_tsx = Regex (backslash # ''.(ts|tsx)$'')"

definition re_html :: cond where
  "re_html = Regex (backslash # ''.html$'')"

definition re_json :: cond where
  "re_json = Regex (backslash # ''.json$'')"

definition re_scripts :: cond where
  "re_scripts = Regex (backslash # ''.(js|jsx|ts|tsx)$'')"

definition re_styles :: cond where
  "re_styles = Regex (backslash # ''.(css|less|scss|sass)$'')"

text \<open>The type-lint pre-pass (lines 285 to 303) and the script-lint pre-pass (lines 304
  to 319): each is a list of no rule or of one rule.\<close>

definition tslintRules :: "world \<Rightarrow> env \<Rightarrow> string \<Rightarrow> error + rule list" where
  "tslintRules w e wd =
     (if truthyS (DISABLE_TSLINT e) then Inr []
      else thenE (require_resolve w ''tslint-loader'') (\<lambda>tslint_loader.
             Inr [emptyRule\<lparr>test := Some re_tsx, include_cond := Some (Path wd),
                    exclude := Some re_node_modules, enforce := Some ''pre'',
                    use := Some (Use [LoaderObj tslint_loader
                                        (Obj [(''emitErrors'', Bool True)])])\<rparr>]))"

definition eslintRules :: "world \<Rightarrow> env \<Rightarrow> string \<Rightarrow> eslintOptions \<Rightarrow> error + rule list" where
  "eslintRules w e wd eo =
     (if truthyS (DISABLE_ESLINT e) then Inr []
      else thenE (require_resolve w ''eslint-loader'') (\<lambda>eslint_loader.
             Inr [emptyRule\<lparr>test := Some re_js_jsx, include_cond := Some (Path wd),
                    exclude := Some re_node_modules, enforce := Some ''pre'',
                    use := Some (Use [LoaderObj eslint_loader (eslintOptions_obj eo)])\<rparr>]))"

text \<open>The static-asset fallback rule (lines 320 to 332).\<close>

definition urlLoaderRule :: "string \<Rightarrow> rule" where
  "urlLoaderRule url_loader =
     emptyRule\<lparr>exclude := Some (Conds [re_html, re_json, re_scripts, re_styles]),
       loader := Some url_loader,
       options := Some (Obj [(''limit'', Num 10000),
                             (''name'', Str ''static/[name].[hash:8].[ext]'')])\<rparr>"

text \<open>The rules after the pre-passes (lines 320 to 367).\<close>

definition otherRules ::
  "world \<Rightarrow> opts \<Rightarrow> string \<Rightarrow> use_item list \<Rightarrow> rule list \<Rightarrow> error + rule list" where
  "otherRules w opts wd babelUse' cssRules' =
     thenE (require_resolve w ''url-loader'') (\<lambda>url_loader.
     thenE (require_resolve w ''awesome-typescript-loader'') (\<lambda>ts_loader.
     thenE (require_resolve w ''file-loader'') (\<lambda>file_loader.
       Inr ([urlLoaderRule url_loader,
             emptyRule\<lparr>test := Some re_js_jsx, exclude := Some re_node_modules,
               use := Some (Use babelUse')\<rparr>,
             emptyRule\<lparr>test := Some re_ts_tsx, exclude := Some re_node_modules,
               use := Some (Use (babelUse'
                       @ [LoaderObj ts_loader (Obj [(''transpileOnly'', Bool True)])]))\<rparr>]
            @ (case extraBabelIncludes opts of
                 None \<Rightarrow> []
               | Some includes \<Rightarrow>
                   map (\<lambda>include'. emptyRule\<lparr>test := Some re_js_jsx,
                          include_cond := Some (Path (path_join [wd, include'])),
                          use := Some (Use babelUse')\<rparr>) includes)
            @ [emptyRule\<lparr>test := Some re_html, loader := Some file_loader,
                 options := Some (Obj [(''name'', Str ''[name].[ext]'')])\<rparr>]
            @ cssRules'))))"

definition moduleRules ::
  "world \<Rightarrow> env \<Rightarrow> opts \<Rightarrow> string \<Rightarrow> use_item list \<Rightarrow> eslintOptions \<Rightarrow> rule list
     \<Rightarrow> error + rule list" where
  "moduleRules w e opts wd babelUse' eo cssRules' =
     thenE (tslintRules w e wd) (\<lambda>tslint.
     thenE (eslintRules w e wd eo) (\<lambda>eslint.
     thenE (otherRules w opts wd babelUse' cssRules') (\<lambda>others.
       Inr (tslint @ eslint @ others))))"

section \<open>Plugins\<close>

text \<open>The options of the source-map plugin (a path template function) are not part of
  the model.\<close>

definition pluginList :: "deps \<Rightarrow> world \<Rightarrow> env \<Rightarrow> opts \<Rightarrow> string \<Rightarrow> plugin list" where
  "pluginList d w e opts wd =
     (if isDev e then
        [HotModuleReplacementPlugin,
         WatchMissingNodeModulesPlugin (path_join [wd, ''node_modules'']),
         SystemBellWebpackPlugin]
        @ (if truthyS (devtool opts) then [] else [SourceMapDevToolPlugin])
      else
        [OccurrenceOrderPlugin,
         ModuleConcatenationPlugin,
         ExtractTextPlugin [(''filename'', Str (''[name]'' @ cssHash e opts @ ''.css'')),
                            (''allChunks'', Bool True)]]
        @ (case manifest opts of
             None \<Rightarrow> []
           | Some m \<Rightarrow> [ManifestPlugin (spread [(''fileName'', Str ''manifest.json'')] m)]))
     @ (if isDev e \<or> truthyS (NO_COMPRESS e) then []
        else [UglifyJsPlugin
                (spread (uglifyJSConfig d)
                   (if truthyS (devtool opts) then [(''sourceMap'', Bool True)] else []))])
     @ [DefinePlugin
          (spread
             (spread
                [(''process.env.NODE_ENV'',
                    Ext ''JSON.stringify''
                      [Str (if isDev e then ''development'' else ''production'')])]
                (case SOCKET_SERVER e of
                   None \<Rightarrow> []
                 | Some s \<Rightarrow>
                     if s \<noteq> [] then [(''process.env.SOCKET_SERVER'', Ext ''JSON.stringify'' [Str s])]
                     else []))
             (stringifyObject d (case define_consts opts of None \<Rightarrow> [] | Some c \<Rightarrow> c)))]
     @ (if truthyS (ANALYZE e)
        then [BundleAnalyzerPlugin
                [(''analyzerMode'', Str ''server''),
                 (''analyzerPort'',
                    (case ANALYZE_PORT e of
                       None \<Rightarrow> Num 8888
                     | Some p \<Rightarrow> if p \<noteq> [] then Str p else Num 8888)),
                 (''openAnalyzer'', Bool True)]]
        else [])
     @ [CaseSensitivePathsPlugin,
        LoaderOptionsPlugin [(''options'', Obj [(''context'', Str (module_dirname w))])]]
     @ (if truthyS (TS_TYPECHECK e) then [ForkTsCheckerWebpackPlugin] else [])
     @ (if ignoreMomentLocale opts then [IgnorePlugin] else [])
     @ commonsPlugins opts
     @ copyPlugins w opts wd"

section \<open>The descriptor\<close>

definition resolveSection :: "world \<Rightarrow> opts \<Rightarrow> string \<Rightarrow> resolve_section" where
  "resolveSection w opts babel_runtime_package =
     \<lparr>modules =
        [path_resolve (process_cwd w) [module_dirname w, ''../node_modules''], ''node_modules'']
        @ (case extraResolveModules opts of None \<Rightarrow> [] | Some ms \<Rightarrow> ms),
      extensions =
        (case extraResolveExtensions opts of None \<Rightarrow> [] | Some es \<Rightarrow> es)
        @ [''.web.js'', ''.web.jsx'', ''.web.ts'', ''.web.tsx'', ''.js'', ''.json'', ''.jsx'',
           ''.ts'', ''.tsx''],
      alias_map =
        spread [(''@babel/runtime'', Str (path_dirname babel_runtime_package))]
          (alias_opt opts)\<rparr>"

definition outputSection :: "world \<Rightarrow> env \<Rightarrow> opts \<Rightarrow> string \<Rightarrow> output_section" where
  "outputSection w e opts wd =
     \<lparr>path = outputPath_of w opts wd,
      pathinfo = isDev e,
      filename = ''[name]'' @ jsHash e opts @ ''.js'',
      publicPath_out = (if truthyS (publicPath opts) then publicPath opts else None),
      chunkFilename = ''[name]'' @ jsHash e opts @ ''.async.js''\<rparr>"

text \<open>Lines 477 to 479: the environment's override of the public path.\<close>

definition publicPathOverride :: "deps \<Rightarrow> env \<Rightarrow> config \<Rightarrow> config" where
  "publicPathOverride d e c =
     (case PUBLIC_PATH e of
        None \<Rightarrow> c
      | Some p \<Rightarrow>
          if p \<noteq> [] then
            c\<lparr>output_sec := (output_sec c)\<lparr>publicPath_out := Some (stripLastSlash d p @ ''/'')\<rparr>\<rparr>
          else c)"

text \<open>The object literal of lines 248 to 475, given the working directory, the resolved
  path of \<open>@babel/runtime/package\<close> and the rule list.\<close>

definition configLiteral ::
  "deps \<Rightarrow> world \<Rightarrow> env \<Rightarrow> opts \<Rightarrow> string \<Rightarrow> string \<Rightarrow> rule list \<Rightarrow> config" where
  "configLiteral d w e opts wd babel_runtime_package rules =
     \<lparr>bail = \<not> isDev e,
      devtool_mode = (if truthyS (devtool opts) then devtool opts else None),
      entry_points = (if truthy (entry opts) then entry opts else Null),
      output_sec = outputSection w e opts wd,
      resolve = resolveSection w opts babel_runtime_package,
      module_rules = rules,
      plugins = pluginList d w e opts wd,
      externals_out = externals opts,
      node = [(''dgram'', Str ''empty''), (''fs'', Str ''empty''),
              (''net'', Str ''empty''), (''tls'', Str ''empty''),
              (''child_process'', Str ''empty'')],
      performance = (if isDev e then [(''hints'', Bool False)] else [])\<rparr>"

text \<open>\<open>buildConfig\<close> is \<open>getConfig\<close> up to line 479: the descriptor that is handed to the
  override hook.\<close>

definition buildConfig :: "deps \<Rightarrow> world \<Rightarrow> env \<Rightarrow> opts \<Rightarrow> error + config" where
  "buildConfig d w e opts =
     (case cwd opts of
        None \<Rightarrow> Inl (AssertionError ''opts.cwd must be specified'')
      | Some wd \<Rightarrow>
          if wd = [] then Inl (AssertionError ''opts.cwd must be specified'')
          else
            thenE (cssRules d w e opts) (\<lambda>cssRules'.
            thenE (babelUse d w e opts) (\<lambda>babelUse'.
            thenE (eslintOptions_final w wd) (\<lambda>eo.
            thenE (require_resolve w ''@babel/runtime/package'') (\<lambda>babel_runtime_package.
            thenE (moduleRules w e opts wd babelUse' eo cssRules') (\<lambda>rules.
              Inr (publicPathOverride d e
                     (configLiteral d w e opts wd babel_runtime_package rules))))))))"

definition getConfig :: "deps \<Rightarrow> world \<Rightarrow> env \<Rightarrow> opts \<Rightarrow> error + config" where
  "getConfig d w e opts =
     thenE (buildConfig d w e opts) (\<lambda>c. Inr (applyWebpackConfig d c))"

section \<open>Auxiliary definitions for the proofs\<close>

text \<open>The chain that \<open>getCSSLoader\<close> returns when \<open>style-loader\<close>, \<open>css-loader\<close> and
  \<open>postcss-loader\<close> resolve to \<open>st\<close>, \<open>cs\<close> and \<open>pc\<close>.\<close>

definition lessStep :: "deps \<Rightarrow> world \<Rightarrow> opts \<Rightarrow> bool \<Rightarrow> use_item list" where
  "lessStep d w opts less_on =
     (if less_on
      then (case node_modules w ''less-loader'' of
              None \<Rightarrow> []
            | Some p \<Rightarrow> [LoaderObj p (lessOptions d opts)])
      else [])"

definition sassStep :: "world \<Rightarrow> bool \<Rightarrow> jsval \<Rightarrow> use_item list" where
  "sassStep w sass_on sassOptions =
     (if sass_on
      then (case node_modules w ''sass-loader'' of
              None \<Rightarrow> []
            | Some p \<Rightarrow> [LoaderObj p sassOptions])
      else [])"

definition cssChain ::
  "deps \<Rightarrow> world \<Rightarrow> env \<Rightarrow> opts \<Rightarrow> string \<Rightarrow> string \<Rightarrow> string \<Rightarrow> bool \<Rightarrow> bool \<Rightarrow> bool \<Rightarrow> jsval
     \<Rightarrow> use_item list" where
  "cssChain d w e opts st cs pc cssModules less_on sass_on sassOptions =
     LoaderPath st
     # LoaderObj cs
         (Obj (spread (cssOptions e opts) (if cssModules then cssModulesConfig opts else [])))
     # LoaderObj pc (postcssOptions d opts)
     # lessStep d w opts less_on @ sassStep w sass_on sassOptions"

text \<open>The modules whose resolution \<open>getConfig\<close> does not guard.\<close>

definition requiredModules :: "env \<Rightarrow> string list" where
  "requiredModules e =
     [''style-loader'', ''css-loader'', ''postcss-loader'', ''less-loader'', ''babel-loader'',
      ''eslint-config-umi'', ''eslint'', ''@babel/runtime/package'']
     @ (if truthyS (DISABLE_TSLINT e) then [] else [''tslint-loader''])
     @ (if truthyS (DISABLE_ESLINT e) then [] else [''eslint-loader''])
     @ [''url-loader'', ''awesome-typescript-loader'', ''file-loader'']"

definition resolves :: "world \<Rightarrow> string \<Rightarrow> bool" where
  "resolves w m = (node_modules w m \<noteq> None)"

definition builtRules ::
  "deps \<Rightarrow> world \<Rightarrow> env \<Rightarrow> opts \<Rightarrow> string \<Rightarrow> string \<Rightarrow> string \<Rightarrow> rule list" where
  "builtRules d w e opts st cs pc =
     [emptyRule\<lparr>test := Some re_css, exclude := Some re_node_modules,
        use := Some (Use (cssChain d w e opts st cs pc True False False Undefined))\<rparr>,
      emptyRule\<lparr>test := Some re_css, include_cond := Some re_node_modules,
        use := Some (Use (cssChain d w e opts st cs pc False False False Undefined))\<rparr>,
      emptyRule\<lparr>test := Some re_less, exclude := Some re_node_modules,
        use := Some (Use (cssChain d w e opts st cs pc True True False Undefined))\<rparr>,
      emptyRule\<lparr>test := Some re_less, include_cond := Some re_node_modules,
        use := Some (Use (cssChain d w e opts st cs pc False True False Undefined))\<rparr>,
      emptyRule\<lparr>test := Some re_sass, exclude := Some re_node_modules,
        use := Some (Use (cssChain d w e opts st cs pc True False True (sass opts)))\<rparr>,
      emptyRule\<lparr>test := Some re_sass, include_cond := Some re_node_modules,
        use := Some (Use (cssChain d w e opts st cs pc False False True (sass opts)))\<rparr>]"

text \<open>The rules between the static-asset fallback rule and the style rules, given the
  resolved paths of \<open>awesome-typescript-loader\<close> and \<open>file-loader\<close>.\<close>

definition middleRules :: "opts \<Rightarrow> string \<Rightarrow> use_item list \<Rightarrow> string \<Rightarrow> string \<Rightarrow> rule list" where
  "middleRules opts wd babelUse' ts_loader file_loader =
     [emptyRule\<lparr>test := Some re_js_jsx, exclude := Some re_node_modules,
        use := Some (Use babelUse')\<rparr>,
      emptyRule\<lparr>test := Some re_ts_tsx, exclude := Some re_node_modules,
        use := Some (Use (babelUse'
                @ [LoaderObj ts_loader (Obj [(''transpileOnly'', Bool True)])]))\<rparr>]
     @ (case extraBabelIncludes opts of
          None \<Rightarrow> []
        | Some includes \<Rightarrow>
            map (\<lambda>include'. emptyRule\<lparr>test := Some re_js_jsx,
                   include_cond := Some (Path (path_join [wd, include'])),
                   use := Some (Use babelUse')\<rparr>) includes)
     @ [emptyRule\<lparr>test := Some re_html, loader := Some file_loader,
          options := Some (Obj [(''name'', Str ''[name].[ext]'')])\<rparr>]"

text \<open>
  What it means for the project-scoped rule \<open>p\<close> and the dependency-scoped rule \<open>dep\<close>
  of one style language to differ only in module scoping: they match the same files,
  the first outside and the second inside \<open>node_modules\<close>; both chains are plain or both
  are extracted; and the chains have the same length and are equal element by element,
  except that an element of \<open>p\<close> may be the module loader with the options of the
  element of \<open>dep\<close> and the module-scoping options spread over them.
\<close>

definition scoped_item :: "string \<Rightarrow> obj \<Rightarrow> use_item \<Rightarrow> use_item \<Rightarrow> bool" where
  "scoped_item css_loader scoping p dep =
     (p = dep \<or>
      (case (p, dep) of
         (LoaderObj lp (Obj op), LoaderObj ld (Obj od)) \<Rightarrow>
           lp = css_loader \<and> ld = css_loader \<and> op = spread od scoping
       | _ \<Rightarrow> False))"

fun scoped_use :: "string \<Rightarrow> obj \<Rightarrow> rule_use option \<Rightarrow> rule_use option \<Rightarrow> bool" where
  "scoped_use css_loader scoping (Some (Use p)) (Some (Use dep)) =
     list_all2 (scoped_item css_loader scoping) p dep"
| "scoped_use css_loader scoping (Some (ExtractTextPlugin_extract p))
     (Some (ExtractTextPlugin_extract dep)) =
     list_all2 (scoped_item css_loader scoping) p dep"
| "scoped_use css_loader scoping p dep = False"

definition scoped_pair :: "world \<Rightarrow> opts \<Rightarrow> rule \<Rightarrow> rule \<Rightarrow> bool" where
  "scoped_pair w opts p dep =
     (case node_modules w ''css-loader'' of
        None \<Rightarrow> False
      | Some css_loader \<Rightarrow>
          test p = test dep \<and>
          exclude p = Some re_node_modules \<and> include_cond p = None \<and>
          include_cond dep = Some re_node_modules \<and> exclude dep = None \<and>
          scoped_use css_loader (cssModulesConfig opts) (use p) (use dep))"

text \<open>The names of the loaders of a chain, in order.\<close>

fun loader_of :: "use_item \<Rightarrow> string" where
  "loader_of (LoaderPath l) = l"
| "loader_of (LoaderObj l opts) = l"

fun chain_of :: "rule_use option \<Rightarrow> use_item list" where
  "chain_of (Some (Use chain)) = chain"
| "chain_of (Some (ExtractTextPlugin_extract chain)) = chain"
| "chain_of None = []"

section \<open>Concrete inputs\<close>

text \<open>
  Modelled from the spec: \<open>stripLastSlash\<close> of \<open>./utils\<close> is not among the sources.  The
  spec has the public-path override "with a trailing separator normalized to exactly
  one" once line 478 has appended a separator, so the helper removes one trailing
  separator, the last one.  It is the helper of the instance \<open>deps0\<close>; what the theorems
  say of the precedence holds for every helper, and what they say of the number of
  trailing separators is said of this one.
\<close>

definition stripLastSlash_spec :: "string \<Rightarrow> string" where
  "stripLastSlash_spec s = (if s \<noteq> [] \<and> last s = slash then butlast s else s)"


text \<open>An instance of the imported modules: empty default configurations, a
  \<open>normalizeTheme\<close> that is "pass-through, or an empty mapping if none given", and an
  override hook that returns the descriptor as it is.\<close>

definition deps0 :: deps where
  "deps0 =
     \<lparr>uglifyJSConfig = [], babelConfig = [], defaultBrowsers = Arr [Str ''>1%''],
      normalizeTheme = (\<lambda>t. if truthy t then t else Obj []),
      stringifyObject = map (\<lambda>(k, v). (k, Ext ''JSON.stringify'' [v])),
      stripLastSlash = stripLastSlash_spec,
      applyWebpackConfig = (\<lambda>c. c)\<rparr>"

text \<open>A machine where every module resolves, the process runs in \<open>/app\<close> and none of
  the files that the synthesis looks for exists.\<close>

definition world0 :: world where
  "world0 =
     \<lparr>process_cwd = ''/app'', module_dirname = ''/umi/af-webpack/lib'',
      node_modules = (\<lambda>m. Some (''/umi/node_modules/'' @ m)),
      existsSync = (\<lambda>p. False),
      require_file = (\<lambda>p. None),
      resolveSync = (\<lambda>m basedir. None),
      readRc = (\<lambda>p. None)\<rparr>"

definition env_production :: env where
  "env_production =
     \<lparr>NODE_ENV = Some ''production'', NO_COMPRESS = None, DISABLE_BABELRC = None,
      DISABLE_TSLINT = None, DISABLE_ESLINT = None, SOCKET_SERVER = None, ANALYZE = None,
      ANALYZE_PORT = None, TS_TYPECHECK = None, PUBLIC_PATH = None\<rparr>"

definition env_development :: env where
  "env_development = env_production\<lparr>NODE_ENV := Some ''development''\<rparr>"

definition opts0 :: opts where
  "opts0 =
     \<lparr>cwd = Some ''/app'', theme = Undefined, browserslist = Undefined,
      extraPostCSSPlugins = None, disableCSSModules = False, disableCSSSourceMap = False,
      sass = Undefined, commons = None, outputPath = None, copy = Undefined, hash = False,
      babel = None, devtool = None, entry = Undefined, publicPath = None,
      extraResolveModules = None, extraResolveExtensions = None, alias_opt = [],
      extraBabelIncludes = None, manifest = None, define_consts = None,
      ignoreMomentLocale = False, externals = Undefined\<rparr>"

text \<open>A machine like \<open>world0\<close> where the module \<open>m\<close> does not resolve.\<close>

definition world_without :: "string \<Rightarrow> world" where
  "world_without m =
     world0\<lparr>node_modules := (\<lambda>m'. if m' = m then None else node_modules world0 m')\<rparr>"




text \<open>A project in \<open>/app\<close>, where the process runs too, whose \<open>.eslintrc\<close> the reader
  parses to \<open>rc\<close> (\<open>None\<close>: the reader throws).\<close>

definition world_rc :: "obj option \<Rightarrow> world" where
  "world_rc rc =
     world0\<lparr>existsSync := (\<lambda>p. p = ''/app/.eslintrc''),
            readRc := (\<lambda>p. if p = ''/app/.eslintrc'' then rc else None)\<rparr>"

text \<open>A project in \<open>/app\<close>, where the process runs too, with the manifest \<open>pkg\<close> and a
  lint engine that resolves from the project.\<close>

definition world_pkg :: "jsval \<Rightarrow> world" where
  "world_pkg pkg =
     world0\<lparr>require_file := (\<lambda>p. if p = ''/app/package.json'' then Some pkg else None),
            resolveSync := (\<lambda>m basedir.
              if m = ''eslint'' \<and> basedir = ''/app''
              then Some ''/app/node_modules/eslint/lib/api.js'' else None)\<rparr>"

text \<open>A manifest that does not declare the lint engine, and one that declares it as a
  development dependency and has no \<open>dependencies\<close> object.\<close>

definition pkg_without_eslint :: jsval where
  "pkg_without_eslint =
     Obj [(''dependencies'', Obj []),
          (''devDependencies'', Obj [(''jest'', Str ''^23.0.0'')])]"

definition pkg_dev_eslint :: jsval where
  "pkg_dev_eslint = Obj [(''devDependencies'', Obj [(''eslint'', Str ''^4.19.1'')])]"

text \<open>A project in \<open>/app\<close> with a manifest that declares the lint engine and an
  \<open>.eslintrc\<close> that extends a base configuration, while the process runs in
  \<open>process_dir\<close>.\<close>

definition world_project :: "string \<Rightarrow> world" where
  "world_project process_dir =
     world0\<lparr>process_cwd := process_dir,
            existsSync := (\<lambda>p. p = ''/app/.eslintrc''),
            readRc := (\<lambda>p. if p = ''/app/.eslintrc''
                             then Some [(''extends'', Str ''airbnb'')] else None),
            require_file := (\<lambda>p.
              if p = ''/app/package.json''
              then Some (Obj [(''dependencies'', Obj [(''eslint'', Str ''^4.19.1'')]),
                              (''devDependencies'', Obj [])])
              else None),
            resolveSync := (\<lambda>m basedir.
              if m = ''eslint'' \<and> basedir = ''/app''
              then Some ''/app/node_modules/eslint/lib/api.js'' else None)\<rparr>"

section \<open>Basic lemmas\<close>

lemma thenE_Inr_iff: "thenE x f = Inr y \<longleftrightarrow> (\<exists>a. x = Inr a \<and> f a = Inr y)"
  by (cases x) auto

lemma require_resolve_Inr_iff: "require_resolve w m = Inr p \<longleftrightarrow> node_modules w m = Some p"
  by (simp add: require_resolve_def split: option.splits)

lemma getCSSLoader_iff:
  "getCSSLoader d w e opts m l s so = Inr u \<longleftrightarrow>
   (\<exists>st cs pc.
      node_modules w ''style-loader'' = Some st \<and>
      node_modules w ''css-loader'' = Some cs \<and>
      node_modules w ''postcss-loader'' = Some pc \<and>
      (l \<longrightarrow> resolves w ''less-loader'') \<and>
      u = cssChain d w e opts st cs pc m l s so)"
  by (auto simp: getCSSLoader_def thenE_Inr_iff require_resolve_Inr_iff sassStep_def lessStep_def
      cssChain_def resolves_def Let_def split: if_splits option.splits)

lemma cssRules_built_iff:
  "cssRules_built d w e opts = Inr rs \<longleftrightarrow>
   (\<exists>st cs pc.
      node_modules w ''style-loader'' = Some st \<and>
      node_modules w ''css-loader'' = Some cs \<and>
      node_modules w ''postcss-loader'' = Some pc \<and>
      resolves w ''less-loader'' \<and>
      rs = builtRules d w e opts st cs pc)"
  by (auto simp: cssRules_built_def thenE_Inr_iff getCSSLoader_iff builtRules_def)

lemma cssRules_iff:
  "cssRules d w e opts = Inr rs \<longleftrightarrow>
   (\<exists>built. cssRules_built d w e opts = Inr built \<and>
      rs = (if isDev e then built else map extractRule built))"
  by (auto simp: cssRules_def thenE_Inr_iff)

lemma babelUse_iff:
  "babelUse d w e opts = Inr bu \<longleftrightarrow>
   (\<exists>bl. node_modules w ''babel-loader'' = Some bl \<and>
      bu = [LoaderObj (path_join [module_dirname w, ''debugLoader.js'']) Undefined,
            LoaderObj bl
              (Obj (spread (case babel opts of Some b \<Rightarrow> b | None \<Rightarrow> babelConfig d)
                      [(''cacheDirectory'', Bool False),
                       (''babelrc'', Bool (\<not> truthyS (DISABLE_BABELRC e)))]))])"
  by (auto simp: babelUse_def thenE_Inr_iff require_resolve_Inr_iff)

lemma eslintOptions_default_iff:
  "eslintOptions_default w = Inr eo \<longleftrightarrow>
   (\<exists>umi es. node_modules w ''eslint-config-umi'' = Some umi \<and>
      node_modules w ''eslint'' = Some es \<and>
      eo = \<lparr>formatter = Ext ''eslintFormatter'' [],
            baseConfig = Obj [(''extends'', Arr [Str umi])],
            ignore = False, eslintPath = es, useEslintrc = False\<rparr>)"
  by (auto simp: eslintOptions_default_def thenE_Inr_iff require_resolve_Inr_iff)

lemma eslintOptions_final_iff:
  "eslintOptions_final w wd = Inr eo \<longleftrightarrow>
   (\<exists>eo0. eslintOptions_default w = Inr eo0 \<and>
      eo = eslintOptions_rc w (eslintOptions_user w wd eo0))"
  by (auto simp: eslintOptions_final_def thenE_Inr_iff)

lemma tslintRules_iff:
  "tslintRules w e wd = Inr ts \<longleftrightarrow>
   (if truthyS (DISABLE_TSLINT e) then ts = []
    else \<exists>tl. node_modules w ''tslint-loader'' = Some tl \<and>
      ts = [emptyRule\<lparr>test := Some re_tsx, include_cond := Some (Path wd),
              exclude := Some re_node_modules, enforce := Some ''pre'',
              use := Some (Use [LoaderObj tl (Obj [(''emitErrors'', Bool True)])])\<rparr>])"
  by (auto simp: tslintRules_def thenE_Inr_iff require_resolve_Inr_iff)

lemma eslintRules_iff:
  "eslintRules w e wd eo = Inr es \<longleftrightarrow>
   (if truthyS (DISABLE_ESLINT e) then es = []
    else \<exists>el. node_modules w ''eslint-loader'' = Some el \<and>
      es = [emptyRule\<lparr>test := Some re_js_jsx, include_cond := Some (Path wd),
              exclude := Some re_node_modules, enforce := Some ''pre'',
              use := Some (Use [LoaderObj el (eslintOptions_obj eo)])\<rparr>])"
  by (auto simp: eslintRules_def thenE_Inr_iff require_resolve_Inr_iff)

lemma moduleRules_iff:
  "moduleRules w e opts wd bu eo css = Inr rules \<longleftrightarrow>
   (\<exists>ts es others. tslintRules w e wd = Inr ts \<and> eslintRules w e wd eo = Inr es \<and>
      otherRules w opts wd bu css = Inr others \<and> rules = ts @ es @ others)"
  by (auto simp: moduleRules_def thenE_Inr_iff)

lemma publicPathOverride_other:
  "module_rules (publicPathOverride d e c) = module_rules c"
  "plugins (publicPathOverride d e c) = plugins c"
  "filename (output_sec (publicPathOverride d e c)) = filename (output_sec c)"
  "chunkFilename (output_sec (publicPathOverride d e c)) = chunkFilename (output_sec c)"
  "path (output_sec (publicPathOverride d e c)) = path (output_sec c)"
  by (simp_all add: publicPathOverride_def split: option.splits)


lemma configLiteral_fields:
  "module_rules (configLiteral d w e opts wd brp rules) = rules"
  "plugins (configLiteral d w e opts wd brp rules) = pluginList d w e opts wd"
  "output_sec (configLiteral d w e opts wd brp rules) = outputSection w e opts wd"
  by (simp_all add: configLiteral_def)

lemma buildConfig_iff:
  "buildConfig d w e opts = Inr c \<longleftrightarrow>
   (\<exists>wd css bu eo brp rules.
      cwd opts = Some wd \<and> wd \<noteq> [] \<and>
      cssRules d w e opts = Inr css \<and>
      babelUse d w e opts = Inr bu \<and>
      eslintOptions_final w wd = Inr eo \<and>
      node_modules w ''@babel/runtime/package'' = Some brp \<and>
      moduleRules w e opts wd bu eo css = Inr rules \<and>
      c = publicPathOverride d e (configLiteral d w e opts wd brp rules))"
proof (cases "cwd opts")
  case None
  then show ?thesis by (simp add: buildConfig_def)
next
  case (Some wd)
  show ?thesis
  proof (cases "wd = []")
    case True
    with Some show ?thesis by (simp add: buildConfig_def)
  next
    case False
    with Some show ?thesis
      by (simp add: buildConfig_def thenE_Inr_iff require_resolve_Inr_iff) blast
  qed
qed

lemma buildConfig_rules:
  assumes "buildConfig d w e opts = Inr c"
  shows "\<exists>wd css bu eo ts es others.
      cwd opts = Some wd \<and> wd \<noteq> [] \<and>
      cssRules d w e opts = Inr css \<and>
      babelUse d w e opts = Inr bu \<and>
      eslintOptions_final w wd = Inr eo \<and>
      tslintRules w e wd = Inr ts \<and> eslintRules w e wd eo = Inr es \<and>
      otherRules w opts wd bu css = Inr others \<and>
      module_rules c = ts @ es @ others"
proof -
  from assms obtain wd css bu eo brp rules where
    h: "cwd opts = Some wd" "wd \<noteq> []" "cssRules d w e opts = Inr css"
       "babelUse d w e opts = Inr bu" "eslintOptions_final w wd = Inr eo"
       "moduleRules w e opts wd bu eo css = Inr rules"
       "c = publicPathOverride d e (configLiteral d w e opts wd brp rules)"
    unfolding buildConfig_iff by blast
  from h(6) obtain ts es others where
    r: "tslintRules w e wd = Inr ts" "eslintRules w e wd eo = Inr es"
       "otherRules w opts wd bu css = Inr others" "rules = ts @ es @ others"
    unfolding moduleRules_iff by blast
  have "module_rules c = ts @ es @ others"
    using h(7) r(4) by (simp add: publicPathOverride_other configLiteral_fields)
  with h r show ?thesis by blast
qed

lemma buildConfig_output:
  assumes "buildConfig d w e opts = Inr c"
  shows "\<exists>wd. cwd opts = Some wd \<and> wd \<noteq> [] \<and>
      plugins c = pluginList d w e opts wd \<and>
      filename (output_sec c) = ''[name]'' @ jsHash e opts @ ''.js'' \<and>
      chunkFilename (output_sec c) = ''[name]'' @ jsHash e opts @ ''.async.js'' \<and>
      path (output_sec c) = outputPath_of w opts wd"
proof -
  from assms obtain wd brp rules where
    h: "cwd opts = Some wd" "wd \<noteq> []"
       "c = publicPathOverride d e (configLiteral d w e opts wd brp rules)"
    unfolding buildConfig_iff by blast
  from h(3) have "plugins c = pluginList d w e opts wd"
    "filename (output_sec c) = ''[name]'' @ jsHash e opts @ ''.js''"
    "chunkFilename (output_sec c) = ''[name]'' @ jsHash e opts @ ''.async.js''"
    "path (output_sec c) = outputPath_of w opts wd"
    by (simp_all add: publicPathOverride_other configLiteral_fields outputSection_def)
  with h show ?thesis by blast
qed

lemma otherRules_iff:
  "otherRules w opts wd bu css = Inr others \<longleftrightarrow>
   (\<exists>url tsl fl.
      node_modules w ''url-loader'' = Some url \<and>
      node_modules w ''awesome-typescript-loader'' = Some tsl \<and>
      node_modules w ''file-loader'' = Some fl \<and>
      others = urlLoaderRule url # middleRules opts wd bu tsl fl @ css)"
  by (auto simp: otherRules_def thenE_Inr_iff require_resolve_Inr_iff middleRules_def)

lemma middleRules_enforce: "r \<in> set (middleRules opts wd bu tsl fl) \<Longrightarrow> enforce r = None"
  by (auto simp: middleRules_def emptyRule_def split: option.splits)

lemma urlLoaderRule_enforce: "enforce (urlLoaderRule url) = None"
  by (simp add: urlLoaderRule_def emptyRule_def)

lemma extractRule_enforce: "enforce (extractRule r) = enforce r"
  by (simp split: option.splits rule_use.splits)

lemma builtRules_enforce: "r \<in> set (builtRules d w e opts st cs pc) \<Longrightarrow> enforce r = None"
  by (auto simp: builtRules_def emptyRule_def)

lemma cssRules_enforce:
  assumes "cssRules d w e opts = Inr css" and "r \<in> set css"
  shows "enforce r = None"
proof -
  from assms(1) obtain built where
    b: "cssRules_built d w e opts = Inr built"
       "css = (if isDev e then built else map extractRule built)"
    unfolding cssRules_iff by blast
  from b(1) obtain st cs pc where "built = builtRules d w e opts st cs pc"
    unfolding cssRules_built_iff by blast
  then have *: "\<And>x. x \<in> set built \<Longrightarrow> enforce x = None"
    by (simp add: builtRules_enforce)
  show ?thesis
  proof (cases "isDev e")
    case True
    with b(2) assms(2) * show ?thesis by simp
  next
    case False
    with b(2) assms(2) obtain x where "x \<in> set built" "r = extractRule x" by auto
    with * show ?thesis by (simp only: extractRule_enforce)
  qed
qed

lemma cssRules_succeeds:
  assumes "resolves w ''style-loader''" "resolves w ''css-loader''"
    "resolves w ''postcss-loader''" "resolves w ''less-loader''"
  shows "\<exists>css. cssRules d w e opts = Inr css"
  using assms by (auto simp: cssRules_iff cssRules_built_iff resolves_def)

lemma eslintOptions_final_succeeds:
  assumes "resolves w ''eslint-config-umi''" "resolves w ''eslint''"
  shows "\<exists>eo. eslintOptions_final w wd = Inr eo"
  using assms by (auto simp: eslintOptions_final_iff eslintOptions_default_iff resolves_def)

lemma moduleRules_succeeds:
  assumes "truthyS (DISABLE_TSLINT e) \<or> resolves w ''tslint-loader''"
    "truthyS (DISABLE_ESLINT e) \<or> resolves w ''eslint-loader''"
    "resolves w ''url-loader''" "resolves w ''awesome-typescript-loader''"
    "resolves w ''file-loader''"
  shows "\<exists>rules. moduleRules w e opts wd bu eo css = Inr rules"
proof -
  have "\<exists>ts. tslintRules w e wd = Inr ts"
    using assms(1) by (cases "truthyS (DISABLE_TSLINT e)") (auto simp: tslintRules_iff resolves_def)
  moreover have "\<exists>es. eslintRules w e wd eo = Inr es"
    using assms(2) by (cases "truthyS (DISABLE_ESLINT e)") (auto simp: eslintRules_iff resolves_def)
  moreover have "\<exists>others. otherRules w opts wd bu css = Inr others"
    using assms(3-5) by (auto simp: otherRules_iff resolves_def)
  ultimately show ?thesis
    unfolding moduleRules_iff by blast
qed

lemma buildConfig_succeeds:
  assumes "truthyS (cwd opts)" and "list_all (resolves w) (requiredModules e)"
  shows "\<exists>c. buildConfig d w e opts = Inr c"
proof -
  from assms(1) obtain wd where wd: "cwd opts = Some wd" "wd \<noteq> []"
    by (cases "cwd opts") auto
  from assms(2) have r:
    "resolves w ''style-loader''" "resolves w ''css-loader''"
    "resolves w ''postcss-loader''" "resolves w ''less-loader''"
    "resolves w ''babel-loader''" "resolves w ''eslint-config-umi''" "resolves w ''eslint''"
    "resolves w ''@babel/runtime/package''"
    "truthyS (DISABLE_TSLINT e) \<or> resolves w ''tslint-loader''"
    "truthyS (DISABLE_ESLINT e) \<or> resolves w ''eslint-loader''"
    "resolves w ''url-loader''" "resolves w ''awesome-typescript-loader''"
    "resolves w ''file-loader''"
    by (simp_all add: requiredModules_def split: if_splits)
  obtain css where css: "cssRules d w e opts = Inr css"
    using cssRules_succeeds[OF r(1-4)] by blast
  obtain bu where bu: "babelUse d w e opts = Inr bu"
    using r(5) by (auto simp: babelUse_iff resolves_def)
  obtain eo where eo: "eslintOptions_final w wd = Inr eo"
    using eslintOptions_final_succeeds[OF r(6,7)] by blast
  obtain brp where brp: "node_modules w ''@babel/runtime/package'' = Some brp"
    using r(8) by (auto simp: resolves_def)
  obtain rules where rules: "moduleRules w e opts wd bu eo css = Inr rules"
    using moduleRules_succeeds[OF r(9-13)] by blast
  show ?thesis
    unfolding buildConfig_iff using wd css bu eo brp rules by blast
qed

lemma buildConfig_needs:
  assumes "buildConfig d w e opts = Inr c"
  shows "truthyS (cwd opts) \<and> list_all (resolves w) (requiredModules e)"
proof -
  from assms obtain wd css bu eo brp rules where
    h: "cwd opts = Some wd" "wd \<noteq> []" "cssRules d w e opts = Inr css"
       "babelUse d w e opts = Inr bu" "eslintOptions_final w wd = Inr eo"
       "node_modules w ''@babel/runtime/package'' = Some brp"
       "moduleRules w e opts wd bu eo css = Inr rules"
    unfolding buildConfig_iff by blast
  from h(3) have 1: "resolves w ''style-loader''" "resolves w ''css-loader''"
    "resolves w ''postcss-loader''" "resolves w ''less-loader''"
    by (auto simp: cssRules_iff cssRules_built_iff resolves_def)
  from h(4) have 2: "resolves w ''babel-loader''"
    by (auto simp: babelUse_iff resolves_def)
  from h(5) have 3: "resolves w ''eslint-config-umi''" "resolves w ''eslint''"
    by (auto simp: eslintOptions_final_iff eslintOptions_default_iff resolves_def)
  from h(6) have 4: "resolves w ''@babel/runtime/package''"
    by (simp add: resolves_def)
  from h(7) obtain ts es others where
    m: "tslintRules w e wd = Inr ts" "eslintRules w e wd eo = Inr es"
       "otherRules w opts wd bu css = Inr others"
    unfolding moduleRules_iff by blast
  from m(1) have 5: "truthyS (DISABLE_TSLINT e) \<or> resolves w ''tslint-loader''"
    by (auto simp: tslintRules_iff resolves_def split: if_splits)
  from m(2) have 6: "truthyS (DISABLE_ESLINT e) \<or> resolves w ''eslint-loader''"
    by (auto simp: eslintRules_iff resolves_def split: if_splits)
  from m(3) have 7: "resolves w ''url-loader''" "resolves w ''awesome-typescript-loader''"
    "resolves w ''file-loader''"
    by (auto simp: otherRules_iff resolves_def)
  from h(1,2) have "truthyS (cwd opts)" by simp
  moreover have "list_all (resolves w) (requiredModules e)"
    using 1 2 3 4 5 6 7 by (auto simp: requiredModules_def)
  ultimately show ?thesis by blast
qed

lemma world0_resolves: "resolves world0 m"
  by (simp add: resolves_def world0_def)

lemma getConfig_iff:
  "getConfig d w e opts = Inr c' \<longleftrightarrow>
   (\<exists>c. buildConfig d w e opts = Inr c \<and> c' = applyWebpackConfig d c)"
  by (auto simp: getConfig_def thenE_Inr_iff)

section \<open>Claims\<close>

text \<open>
  The claims are stated for \<open>buildConfig\<close>, the descriptor that \<open>getConfig\<close> hands to the
  override hook: by \<open>getConfig_iff\<close> the value that \<open>getConfig\<close> returns is the hook's
  image of it, and the hook is not among the sources.
\<close>

text \<open>
  C6.  In development mode the script hash suffix and the stylesheet hash suffix are both
  the empty string, whatever the hashing option, so the script and chunk filename
  templates carry no hash.  Outside development mode with hashing requested, the script
  filename template and the chunk filename template each contain the placeholder
  \<open>[chunkhash:8]\<close>, and the stylesheet filename template of the extraction plugin
  contains the different placeholder \<open>[contenthash:8]\<close>.
\<close>

theorem C6_hash_suffixes:
  assumes "buildConfig d w e opts = Inr c"
  shows
    "(isDev e \<longrightarrow>
        jsHash e opts = [] \<and> cssHash e opts = [] \<and>
        filename (output_sec c) = ''[name].js'' \<and>
        chunkFilename (output_sec c) = ''[name].async.js'') \<and>
     (\<not> isDev e \<and> hash opts \<longrightarrow>
        jsHash e opts = ''.[chunkhash:8]'' \<and> cssHash e opts = ''.[contenthash:8]'' \<and>
        filename (output_sec c) = ''[name]'' @ ''.[chunkhash:8]'' @ ''.js'' \<and>
        chunkFilename (output_sec c) = ''[name]'' @ ''.[chunkhash:8]'' @ ''.async.js'' \<and>
        ExtractTextPlugin [(''filename'', Str (''[name]'' @ ''.[contenthash:8]'' @ ''.css'')),
                           (''allChunks'', Bool True)] \<in> set (plugins c) \<and>
        jsHash e opts \<noteq> cssHash e opts)"
proof -
  from buildConfig_output[OF assms] obtain wd where
    h: "plugins c = pluginList d w e opts wd"
       "filename (output_sec c) = ''[name]'' @ jsHash e opts @ ''.js''"
       "chunkFilename (output_sec c) = ''[name]'' @ jsHash e opts @ ''.async.js''"
    by blast
  have dev: "isDev e \<Longrightarrow> jsHash e opts = [] \<and> cssHash e opts = []"
    by (simp add: jsHash_def cssHash_def)
  have prod: "\<not> isDev e \<Longrightarrow> hash opts \<Longrightarrow>
      jsHash e opts = ''.[chunkhash:8]'' \<and> cssHash e opts = ''.[contenthash:8]''"
    by (simp add: jsHash_def cssHash_def)
  have plug: "\<not> isDev e \<Longrightarrow>
      ExtractTextPlugin [(''filename'', Str (''[name]'' @ cssHash e opts @ ''.css'')),
                         (''allChunks'', Bool True)] \<in> set (plugins c)"
    by (simp add: h(1) pluginList_def)
  show ?thesis
  proof (intro conjI impI)
    assume "\<not> isDev e \<and> hash opts"
    then have p: "\<not> isDev e" "hash opts" by simp_all
    from plug[OF p(1)] prod[OF p]
    show "ExtractTextPlugin [(''filename'', Str (''[name]'' @ ''.[contenthash:8]'' @ ''.css'')),
                           (''allChunks'', Bool True)] \<in> set (plugins c)"
      by simp
  qed (use h dev prod in simp_all)
qed

theorem C6_hash_suffixes_witness:
  "isDev env_development \<and> hash (opts0\<lparr>hash := True\<rparr>) \<and>
   map_sum id (\<lambda>c. filename (output_sec c))
     (buildConfig deps0 world0 env_development (opts0\<lparr>hash := True\<rparr>)) = Inr ''[name].js'' \<and>
   \<not> isDev env_production \<and>
   map_sum id (\<lambda>c. filename (output_sec c))
     (buildConfig deps0 world0 env_production (opts0\<lparr>hash := True\<rparr>))
     = Inr ''[name].[chunkhash:8].js''"
proof -
  have dev: "isDev env_development" and prod: "\<not> isDev env_production"
    by (simp_all add: isDev_def env_development_def env_production_def)
  have cwd: "truthyS (cwd (opts0\<lparr>hash := True\<rparr>))"
    by (simp add: opts0_def)
  have res: "list_all (resolves world0) (requiredModules e)" for e
    by (simp add: list_all_iff world0_resolves)
  obtain c1 where c1: "buildConfig deps0 world0 env_development (opts0\<lparr>hash := True\<rparr>) = Inr c1"
    using buildConfig_succeeds[OF cwd res] by blast
  obtain c2 where c2: "buildConfig deps0 world0 env_production (opts0\<lparr>hash := True\<rparr>) = Inr c2"
    using buildConfig_succeeds[OF cwd res] by blast
  from C6_hash_suffixes[OF c1] dev have "filename (output_sec c1) = ''[name].js''"
    by blast
  moreover from C6_hash_suffixes[OF c2] prod
  have "filename (output_sec c2) = ''[name]'' @ ''.[chunkhash:8]'' @ ''.js''"
    by simp
  ultimately show ?thesis
    using dev prod c1 c2 by simp
qed

text \<open>
  C10.  The static-asset fallback rule is in the rule list of every descriptor, and the
  filename template of its options is \<open>static/[name].[hash:8].[ext]\<close>: it contains the
  8-character hash segment \<open>[hash:8]\<close> in every mode and whatever the hashing option;
  the script filename template contains no hash in development mode or when hashing is
  not requested.
\<close>

theorem C10_static_asset_hash:
  assumes "buildConfig d w e opts = Inr c"
  shows
    "(\<exists>url. node_modules w ''url-loader'' = Some url \<and>
        urlLoaderRule url \<in> set (module_rules c) \<and>
        loader (urlLoaderRule url) = Some url \<and>
        options (urlLoaderRule url) =
          Some (Obj [(''limit'', Num 10000),
                     (''name'', Str (''static/[name].'' @ ''[hash:8]'' @ ''.[ext]''))])) \<and>
     (isDev e \<or> \<not> hash opts \<longrightarrow> filename (output_sec c) = ''[name].js'')"
proof -
  from buildConfig_rules[OF assms] obtain wd css bu ts es others where
    h: "otherRules w opts wd bu css = Inr others" "module_rules c = ts @ es @ others"
    by blast
  from h(1) obtain url tsl fl where
    u: "node_modules w ''url-loader'' = Some url"
       "others = urlLoaderRule url # middleRules opts wd bu tsl fl @ css"
    unfolding otherRules_iff by blast
  have "urlLoaderRule url \<in> set (module_rules c)"
    by (simp add: h(2) u(2))
  moreover have "loader (urlLoaderRule url) = Some url"
    "options (urlLoaderRule url) =
       Some (Obj [(''limit'', Num 10000),
                  (''name'', Str (''static/[name].'' @ ''[hash:8]'' @ ''.[ext]''))])"
    by (simp_all add: urlLoaderRule_def emptyRule_def)
  moreover have "isDev e \<or> \<not> hash opts \<longrightarrow> filename (output_sec c) = ''[name].js''"
    using buildConfig_output[OF assms] by (auto simp: jsHash_def)
  ultimately show ?thesis
    using u(1) by blast
qed

theorem C10_static_asset_hash_witness:
  "\<not> hash opts0 \<and>
   map_sum id (\<lambda>c. (urlLoaderRule ''/umi/node_modules/url-loader'' \<in> set (module_rules c),
                     filename (output_sec c)))
     (buildConfig deps0 world0 env_production opts0) = Inr (True, ''[name].js'')"
proof -
  have cwd: "truthyS (cwd opts0)"
    by (simp add: opts0_def)
  have res: "list_all (resolves world0) (requiredModules env_production)"
    by (simp add: list_all_iff world0_resolves)
  obtain c where c: "buildConfig deps0 world0 env_production opts0 = Inr c"
    using buildConfig_succeeds[OF cwd res] by blast
  have nh: "\<not> hash opts0"
    by (simp add: opts0_def)
  from C10_static_asset_hash[OF c] nh
  have "urlLoaderRule ''/umi/node_modules/url-loader'' \<in> set (module_rules c)"
    "filename (output_sec c) = ''[name].js''"
    by (auto simp: world0_def)
  then show ?thesis
    using c nh by simp
qed

lemma spread_Nil: "spread a [] = a"
  by (simp add: spread_def)

lemma buildConfig_cssRules:
  assumes "buildConfig d w e opts = Inr c"
  shows "\<exists>pre css st cs pc.
      module_rules c = pre @ css \<and>
      node_modules w ''style-loader'' = Some st \<and>
      node_modules w ''css-loader'' = Some cs \<and>
      node_modules w ''postcss-loader'' = Some pc \<and>
      cssRules_built d w e opts = Inr (builtRules d w e opts st cs pc) \<and>
      css = (if isDev e then builtRules d w e opts st cs pc
             else map extractRule (builtRules d w e opts st cs pc))"
proof -
  from buildConfig_rules[OF assms] obtain wd css bu ts es others where
    h: "cssRules d w e opts = Inr css" "otherRules w opts wd bu css = Inr others"
       "module_rules c = ts @ es @ others"
    by blast
  from h(2) obtain url tsl fl where
    "others = urlLoaderRule url # middleRules opts wd bu tsl fl @ css"
    unfolding otherRules_iff by blast
  with h(3) have pre:
    "module_rules c = (ts @ es @ urlLoaderRule url # middleRules opts wd bu tsl fl) @ css"
    by simp
  from h(1) obtain built where
    b: "cssRules_built d w e opts = Inr built"
       "css = (if isDev e then built else map extractRule built)"
    unfolding cssRules_iff by blast
  from b(1) obtain st cs pc where
    "node_modules w ''style-loader'' = Some st" "node_modules w ''css-loader'' = Some cs"
    "node_modules w ''postcss-loader'' = Some pc" "built = builtRules d w e opts st cs pc"
    unfolding cssRules_built_iff by blast
  with pre b show ?thesis by blast
qed

text \<open>
  C1.  The six style rules are the last six rules of the descriptor.  Each is constructed
  with a chain whose first element is the runtime style injector (the resolved
  \<open>style-loader\<close>).  Outside development mode (production) every one of the six has its
  \<open>use\<close> replaced by the extraction wrapper applied to the rest of its chain, in the
  original order; in development mode the six rules are the constructed ones, unchanged.
\<close>

theorem C1_production_rewrite:
  assumes "buildConfig d w e opts = Inr c"
  shows
    "\<exists>pre built css st.
       module_rules c = pre @ css \<and>
       cssRules_built d w e opts = Inr built \<and>
       node_modules w ''style-loader'' = Some st \<and>
       map test built = [Some re_css, Some re_css, Some re_less, Some re_less,
                         Some re_sass, Some re_sass] \<and>
       list_all2
         (\<lambda>b r. \<exists>rest.
            use b = Some (Use (LoaderPath st # rest)) \<and>
            r = (if isDev e then b else b\<lparr>use := Some (ExtractTextPlugin_extract rest)\<rparr>))
         built css"
proof -
  from buildConfig_cssRules[OF assms] obtain pre css st cs pc where
    h: "module_rules c = pre @ css" "node_modules w ''style-loader'' = Some st"
       "cssRules_built d w e opts = Inr (builtRules d w e opts st cs pc)"
       "css = (if isDev e then builtRules d w e opts st cs pc
               else map extractRule (builtRules d w e opts st cs pc))"
    by blast
  have tests: "map test (builtRules d w e opts st cs pc) =
      [Some re_css, Some re_css, Some re_less, Some re_less, Some re_sass, Some re_sass]"
    by (simp add: builtRules_def emptyRule_def)
  have rel: "list_all2
         (\<lambda>b r. \<exists>rest.
            use b = Some (Use (LoaderPath st # rest)) \<and>
            r = (if isDev e then b else b\<lparr>use := Some (ExtractTextPlugin_extract rest)\<rparr>))
         (builtRules d w e opts st cs pc) css"
  proof (cases "isDev e")
    case True
    with h(4) show ?thesis
      by (simp add: builtRules_def cssChain_def emptyRule_def)
  next
    case False
    with h(4) show ?thesis
      by (simp add: builtRules_def cssChain_def emptyRule_def)
  qed
  show ?thesis
    apply (rule exI[of _ pre])
    apply (rule exI[of _ "builtRules d w e opts st cs pc"])
    apply (rule exI[of _ css])
    apply (rule exI[of _ st])
    apply (intro conjI h(1) h(3) h(2) tests rel)
    done
qed

theorem C1_production_rewrite_witness:
  "\<not> isDev env_production \<and>
   (\<exists>c pre built css st.
       buildConfig deps0 world0 env_production opts0 = Inr c \<and>
       module_rules c = pre @ css \<and>
       cssRules_built deps0 world0 env_production opts0 = Inr built \<and>
       node_modules world0 ''style-loader'' = Some st \<and>
       map test built = [Some re_css, Some re_css, Some re_less, Some re_less,
                         Some re_sass, Some re_sass] \<and>
       list_all2
         (\<lambda>b r. \<exists>rest.
            use b = Some (Use (LoaderPath st # rest)) \<and>
            r = b\<lparr>use := Some (ExtractTextPlugin_extract rest)\<rparr>)
         built css)"
proof -
  have prod: "\<not> isDev env_production"
    by (simp add: isDev_def env_production_def)
  have cwd: "truthyS (cwd opts0)"
    by (simp add: opts0_def)
  have res: "list_all (resolves world0) (requiredModules env_production)"
    by (simp add: list_all_iff world0_resolves)
  obtain c where c: "buildConfig deps0 world0 env_production opts0 = Inr c"
    using buildConfig_succeeds[OF cwd res] by blast
  from C1_production_rewrite[OF c] prod c show ?thesis
    by simp
qed

lemma scoped_item_refl: "list_all2 (scoped_item cs scoping) xs xs"
  by (simp add: list_all2_same scoped_item_def)

lemma cssChain_scoped:
  "list_all2 (scoped_item cs (cssModulesConfig opts))
     (cssChain d w e opts st cs pc True l s so) (cssChain d w e opts st cs pc False l s so)"
  unfolding cssChain_def
  by (simp add: scoped_item_refl spread_Nil) (simp add: scoped_item_def)

lemma cssChain_drop_scoped:
  "list_all2 (scoped_item cs (cssModulesConfig opts))
     (drop (Suc 0) (cssChain d w e opts st cs pc True l s so))
     (drop (Suc 0) (cssChain d w e opts st cs pc False l s so))"
  unfolding cssChain_def
  by (simp add: scoped_item_refl spread_Nil) (simp add: scoped_item_def)

lemma scoped_item_loader: "scoped_item cs scoping p dep \<Longrightarrow> loader_of p = loader_of dep"
  by (cases p; cases dep) (auto simp: scoped_item_def split: jsval.splits)

lemma scoped_use_loaders:
  "scoped_use cs scoping p dep \<Longrightarrow>
   map loader_of (chain_of p) = map loader_of (chain_of dep)"
proof (induction cs scoping p dep rule: scoped_use.induct)
  case (1 cs scoping p dep)
  then have "list_all2 (\<lambda>a b. loader_of a = loader_of b) p dep"
    by (auto elim!: list_all2_mono dest: scoped_item_loader)
  then show ?case
    by (simp add: list_all2_conv_all_nth list_eq_iff_nth_eq)
next
  case (2 cs scoping p dep)
  then have "list_all2 (\<lambda>a b. loader_of a = loader_of b) p dep"
    by (auto elim!: list_all2_mono dest: scoped_item_loader)
  then show ?case
    by (simp add: list_all2_conv_all_nth list_eq_iff_nth_eq)
qed simp_all

lemma scoped_pair_loaders:
  "scoped_pair w opts p dep \<Longrightarrow>
   map loader_of (chain_of (use p)) = map loader_of (chain_of (use dep))"
  by (auto simp: scoped_pair_def split: option.splits dest: scoped_use_loaders)

lemma scoped_pair_built:
  assumes "node_modules w ''css-loader'' = Some cs"
  shows "scoped_pair w opts
     (emptyRule\<lparr>test := Some t, exclude := Some re_node_modules,
        use := Some (Use (cssChain d w e opts st cs pc True l s so))\<rparr>)
     (emptyRule\<lparr>test := Some t, include_cond := Some re_node_modules,
        use := Some (Use (cssChain d w e opts st cs pc False l s so))\<rparr>)"
  by (simp add: scoped_pair_def assms emptyRule_def cssChain_scoped)

lemma scoped_pair_extracted:
  assumes "node_modules w ''css-loader'' = Some cs"
  shows "scoped_pair w opts
     (extractRule (emptyRule\<lparr>test := Some t, exclude := Some re_node_modules,
        use := Some (Use (cssChain d w e opts st cs pc True l s so))\<rparr>))
     (extractRule (emptyRule\<lparr>test := Some t, include_cond := Some re_node_modules,
        use := Some (Use (cssChain d w e opts st cs pc False l s so))\<rparr>))"
  by (simp add: scoped_pair_def assms emptyRule_def cssChain_drop_scoped)

lemma builtRules_pairs:
  assumes "node_modules w ''css-loader'' = Some cs"
  shows "\<exists>p1 d1 p2 d2 p3 d3.
       builtRules d w e opts st cs pc = [p1, d1, p2, d2, p3, d3] \<and>
       test p1 = Some re_css \<and> test p2 = Some re_less \<and> test p3 = Some re_sass \<and>
       scoped_pair w opts p1 d1 \<and> scoped_pair w opts p2 d2 \<and> scoped_pair w opts p3 d3"
  unfolding builtRules_def
  apply (intro exI conjI)
        apply (rule refl)
       apply (simp add: emptyRule_def)
      apply (simp add: emptyRule_def)
     apply (simp add: emptyRule_def)
    apply (rule scoped_pair_built[OF assms])
   apply (rule scoped_pair_built[OF assms])
  apply (rule scoped_pair_built[OF assms])
  done

lemma extractedRules_pairs:
  assumes "node_modules w ''css-loader'' = Some cs"
  shows "\<exists>p1 d1 p2 d2 p3 d3.
       map extractRule (builtRules d w e opts st cs pc) = [p1, d1, p2, d2, p3, d3] \<and>
       test p1 = Some re_css \<and> test p2 = Some re_less \<and> test p3 = Some re_sass \<and>
       scoped_pair w opts p1 d1 \<and> scoped_pair w opts p2 d2 \<and> scoped_pair w opts p3 d3"
  unfolding builtRules_def list.map
  apply (intro exI conjI)
        apply (rule refl)
       apply (simp add: emptyRule_def)
      apply (simp add: emptyRule_def)
     apply (simp add: emptyRule_def)
    apply (rule scoped_pair_extracted[OF assms])
   apply (rule scoped_pair_extracted[OF assms])
  apply (rule scoped_pair_extracted[OF assms])
  done

text \<open>
  C7.  For each style language (plain CSS, Less, Sass) the descriptor holds a
  project-scoped rule followed by a dependency-scoped rule, and the two differ only in
  module scoping in the sense of \<open>scoped_pair\<close>: the chains are equal element by
  element, except that the module loader of the project-scoped rule also receives the
  module-scoping options.  In particular the two chains name the same loaders in the
  same order, so the post-processor step and the preprocessor step are present in both
  or in neither.
\<close>

theorem C7_rule_pairs:
  assumes "buildConfig d w e opts = Inr c"
  shows
    "\<exists>pre p1 d1 p2 d2 p3 d3.
       module_rules c = pre @ [p1, d1, p2, d2, p3, d3] \<and>
       test p1 = Some re_css \<and> test p2 = Some re_less \<and> test p3 = Some re_sass \<and>
       scoped_pair w opts p1 d1 \<and> scoped_pair w opts p2 d2 \<and> scoped_pair w opts p3 d3 \<and>
       map loader_of (chain_of (use p1)) = map loader_of (chain_of (use d1)) \<and>
       map loader_of (chain_of (use p2)) = map loader_of (chain_of (use d2)) \<and>
       map loader_of (chain_of (use p3)) = map loader_of (chain_of (use d3))"
proof -
  from buildConfig_cssRules[OF assms] obtain pre css st cs pc where
    h: "module_rules c = pre @ css" "node_modules w ''css-loader'' = Some cs"
       "css = (if isDev e then builtRules d w e opts st cs pc
               else map extractRule (builtRules d w e opts st cs pc))"
    by blast
  have "\<exists>p1 d1 p2 d2 p3 d3.
       css = [p1, d1, p2, d2, p3, d3] \<and>
       test p1 = Some re_css \<and> test p2 = Some re_less \<and> test p3 = Some re_sass \<and>
       scoped_pair w opts p1 d1 \<and> scoped_pair w opts p2 d2 \<and> scoped_pair w opts p3 d3"
  proof (cases "isDev e")
    case True
    with h(3) have "css = builtRules d w e opts st cs pc" by simp
    with builtRules_pairs[OF h(2)] show ?thesis by simp
  next
    case False
    with h(3) have "css = map extractRule (builtRules d w e opts st cs pc)" by simp
    with extractedRules_pairs[OF h(2)] show ?thesis by simp
  qed
  then obtain p1 d1 p2 d2 p3 d3 where
    r: "css = [p1, d1, p2, d2, p3, d3]"
    "test p1 = Some re_css" "test p2 = Some re_less" "test p3 = Some re_sass"
    "scoped_pair w opts p1 d1" "scoped_pair w opts p2 d2" "scoped_pair w opts p3 d3"
    by blast
  have m: "module_rules c = pre @ [p1, d1, p2, d2, p3, d3]"
    using h(1) r(1) by simp
  show ?thesis
    apply (rule exI[of _ pre])
    apply (rule exI[of _ p1], rule exI[of _ d1])
    apply (rule exI[of _ p2], rule exI[of _ d2])
    apply (rule exI[of _ p3], rule exI[of _ d3])
    apply (intro conjI m r(2-7) scoped_pair_loaders[OF r(5)] scoped_pair_loaders[OF r(6)]
        scoped_pair_loaders[OF r(7)])
    done
qed

theorem C7_rule_pairs_witness:
  "\<exists>c pre p1 d1 p2 d2 p3 d3.
     buildConfig deps0 world0 env_production opts0 = Inr c \<and>
     module_rules c = pre @ [p1, d1, p2, d2, p3, d3] \<and>
     test p1 = Some re_css \<and> test p2 = Some re_less \<and> test p3 = Some re_sass \<and>
     scoped_pair world0 opts0 p1 d1 \<and>
     scoped_pair world0 opts0 p2 d2 \<and>
     scoped_pair world0 opts0 p3 d3 \<and>
     map loader_of (chain_of (use p1)) = map loader_of (chain_of (use d1)) \<and>
     map loader_of (chain_of (use p2)) = map loader_of (chain_of (use d2)) \<and>
     map loader_of (chain_of (use p3)) = map loader_of (chain_of (use d3))"
proof -
  have cwd: "truthyS (cwd opts0)"
    by (simp add: opts0_def)
  have res: "list_all (resolves world0) (requiredModules env_production)"
    by (simp add: list_all_iff world0_resolves)
  obtain c where c: "buildConfig deps0 world0 env_production opts0 = Inr c"
    using buildConfig_succeeds[OF cwd res] by blast
  from C7_rule_pairs[OF c] obtain pre p1 d1 p2 d2 p3 d3 where
    "module_rules c = pre @ [p1, d1, p2, d2, p3, d3]"
    "test p1 = Some re_css" "test p2 = Some re_less" "test p3 = Some re_sass"
    "scoped_pair world0 opts0 p1 d1" "scoped_pair world0 opts0 p2 d2"
    "scoped_pair world0 opts0 p3 d3"
    "map loader_of (chain_of (use p1)) = map loader_of (chain_of (use d1))"
    "map loader_of (chain_of (use p2)) = map loader_of (chain_of (use d2))"
    "map loader_of (chain_of (use p3)) = map loader_of (chain_of (use d3))"
    by blast
  with c show ?thesis by blast
qed

lemma flags_irrelevant:
  "cssRules d w (e\<lparr>DISABLE_TSLINT := t, DISABLE_ESLINT := l\<rparr>) opts = cssRules d w e opts"
  "babelUse d w (e\<lparr>DISABLE_TSLINT := t, DISABLE_ESLINT := l\<rparr>) opts = babelUse d w e opts"
  by (simp_all add: cssRules_def cssRules_built_def getCSSLoader_def cssOptions_def isDev_def
      babelUse_def)

lemma tslintRules_flag:
  "truthyS t = truthyS (DISABLE_TSLINT e) \<Longrightarrow>
   tslintRules w (e\<lparr>DISABLE_TSLINT := t, DISABLE_ESLINT := l\<rparr>) wd = tslintRules w e wd"
  by (simp add: tslintRules_def)

lemma eslintRules_flag:
  "truthyS l = truthyS (DISABLE_ESLINT e) \<Longrightarrow>
   eslintRules w (e\<lparr>DISABLE_TSLINT := t, DISABLE_ESLINT := l\<rparr>) wd eo = eslintRules w e wd eo"
  by (simp add: eslintRules_def)

lemma otherRules_enforce:
  assumes "otherRules w opts wd bu css = Inr others" and "cssRules d w e opts = Inr css"
    and "r \<in> set others"
  shows "enforce r = None"
proof -
  from assms(1) obtain url tsl fl where
    "others = urlLoaderRule url # middleRules opts wd bu tsl fl @ css"
    unfolding otherRules_iff by blast
  with assms(3) consider "r = urlLoaderRule url" | "r \<in> set (middleRules opts wd bu tsl fl)"
    | "r \<in> set css"
    by auto
  then show ?thesis
  proof cases
    case 1
    then show ?thesis by (simp add: urlLoaderRule_enforce)
  next
    case 2
    then show ?thesis by (rule middleRules_enforce)
  next
    case 3
    with assms(2) show ?thesis by (rule cssRules_enforce)
  qed
qed

text \<open>
  C5.  The rule list is the type-lint pre-pass, then the script-lint pre-pass, then the
  other rules, none of which is a pre-pass rule.  When the disable-type-lint flag is set
  the type-lint pre-pass is empty, otherwise it is one rule; when the disable-lint flag
  is set the script-lint pre-pass is empty, otherwise it is one rule; so with the
  disable-lint flag set no script-lint pre-pass rule is in the list, and with only the
  disable-type-lint flag set the script-lint pre-pass rule is still there.  Whatever
  values the two flags are given instead, the other rules are the same, and a pre-pass
  whose flag keeps its truth value is the same.
\<close>

theorem C5_prepass_rules:
  assumes "buildConfig d w e opts = Inr c"
  shows
    "\<exists>ts es others.
       module_rules c = ts @ es @ others \<and>
       (\<forall>r\<in>set others. enforce r = None) \<and>
       (if truthyS (DISABLE_TSLINT e) then ts = []
        else \<exists>r. ts = [r] \<and> enforce r = Some ''pre'' \<and> test r = Some re_tsx) \<and>
       (if truthyS (DISABLE_ESLINT e) then es = []
        else \<exists>r. es = [r] \<and> enforce r = Some ''pre'' \<and> test r = Some re_js_jsx) \<and>
       (truthyS (DISABLE_ESLINT e) \<longrightarrow>
          (\<forall>r\<in>set (module_rules c). \<not> (enforce r = Some ''pre'' \<and> test r = Some re_js_jsx))) \<and>
       (truthyS (DISABLE_TSLINT e) \<longrightarrow>
          (\<forall>r\<in>set (module_rules c). \<not> (enforce r = Some ''pre'' \<and> test r = Some re_tsx))) \<and>
       (\<forall>t l c'.
          buildConfig d w (e\<lparr>DISABLE_TSLINT := t, DISABLE_ESLINT := l\<rparr>) opts = Inr c' \<longrightarrow>
          (\<exists>ts' es'.
             module_rules c' = ts' @ es' @ others \<and>
             (truthyS t = truthyS (DISABLE_TSLINT e) \<longrightarrow> ts' = ts) \<and>
             (truthyS l = truthyS (DISABLE_ESLINT e) \<longrightarrow> es' = es)))"
proof -
  from buildConfig_rules[OF assms] obtain wd css bu eo ts es others where
    h: "cwd opts = Some wd" "cssRules d w e opts = Inr css" "babelUse d w e opts = Inr bu"
       "eslintOptions_final w wd = Inr eo" "tslintRules w e wd = Inr ts"
       "eslintRules w e wd eo = Inr es" "otherRules w opts wd bu css = Inr others"
       "module_rules c = ts @ es @ others"
    by blast
  have others: "\<forall>r\<in>set others. enforce r = None"
    using otherRules_enforce[OF h(7) h(2)] by blast
  have ts: "if truthyS (DISABLE_TSLINT e) then ts = []
        else \<exists>r. ts = [r] \<and> enforce r = Some ''pre'' \<and> test r = Some re_tsx"
    using h(5) by (auto simp: tslintRules_iff emptyRule_def split: if_splits)
  have es: "if truthyS (DISABLE_ESLINT e) then es = []
        else \<exists>r. es = [r] \<and> enforce r = Some ''pre'' \<and> test r = Some re_js_jsx"
    using h(6) by (auto simp: eslintRules_iff emptyRule_def split: if_splits)
  have ne: "re_tsx \<noteq> re_js_jsx"
    by (simp add: re_tsx_def re_js_jsx_def)
  have no_es: "truthyS (DISABLE_ESLINT e) \<longrightarrow>
      (\<forall>r\<in>set (module_rules c). \<not> (enforce r = Some ''pre'' \<and> test r = Some re_js_jsx))"
  proof (intro impI ballI)
    fix r assume dis: "truthyS (DISABLE_ESLINT e)" and r: "r \<in> set (module_rules c)"
    from dis es have "es = []" by simp
    with r h(8) have "r \<in> set ts \<or> r \<in> set others" by auto
    then show "\<not> (enforce r = Some ''pre'' \<and> test r = Some re_js_jsx)"
    proof
      assume "r \<in> set ts"
      with ts have "test r = Some re_tsx" by (auto split: if_splits)
      with ne show ?thesis by simp
    next
      assume "r \<in> set others"
      with others show ?thesis by simp
    qed
  qed
  have no_ts: "truthyS (DISABLE_TSLINT e) \<longrightarrow>
      (\<forall>r\<in>set (module_rules c). \<not> (enforce r = Some ''pre'' \<and> test r = Some re_tsx))"
  proof (intro impI ballI)
    fix r assume dis: "truthyS (DISABLE_TSLINT e)" and r: "r \<in> set (module_rules c)"
    from dis ts have "ts = []" by simp
    with r h(8) have "r \<in> set es \<or> r \<in> set others" by auto
    then show "\<not> (enforce r = Some ''pre'' \<and> test r = Some re_tsx)"
    proof
      assume "r \<in> set es"
      with es have "test r = Some re_js_jsx" by (auto split: if_splits)
      with ne show ?thesis by simp
    next
      assume "r \<in> set others"
      with others show ?thesis by simp
    qed
  qed
  have flags: "\<forall>t l c'.
          buildConfig d w (e\<lparr>DISABLE_TSLINT := t, DISABLE_ESLINT := l\<rparr>) opts = Inr c' \<longrightarrow>
          (\<exists>ts' es'.
             module_rules c' = ts' @ es' @ others \<and>
             (truthyS t = truthyS (DISABLE_TSLINT e) \<longrightarrow> ts' = ts) \<and>
             (truthyS l = truthyS (DISABLE_ESLINT e) \<longrightarrow> es' = es))"
  proof (intro allI impI)
    fix t l c'
    let ?e = "e\<lparr>DISABLE_TSLINT := t, DISABLE_ESLINT := l\<rparr>"
    assume "buildConfig d w ?e opts = Inr c'"
    from buildConfig_rules[OF this] obtain wd' css' bu' eo' ts' es' others' where
      h': "cwd opts = Some wd'" "cssRules d w ?e opts = Inr css'" "babelUse d w ?e opts = Inr bu'"
       "eslintOptions_final w wd' = Inr eo'" "tslintRules w ?e wd' = Inr ts'"
       "eslintRules w ?e wd' eo' = Inr es'" "otherRules w opts wd' bu' css' = Inr others'"
       "module_rules c' = ts' @ es' @ others'"
      by blast
    from h(1) h'(1) have wd: "wd' = wd" by simp
    from h(2) h'(2) have css: "css' = css" by (simp add: flags_irrelevant)
    from h(3) h'(3) have bu: "bu' = bu" by (simp add: flags_irrelevant)
    from h(4) h'(4) wd have eo: "eo' = eo" by simp
    from h(7) h'(7) wd css bu have o: "others' = others" by simp
    have "truthyS t = truthyS (DISABLE_TSLINT e) \<longrightarrow> ts' = ts"
      using h(5) h'(5) wd by (auto simp: tslintRules_flag)
    moreover have "truthyS l = truthyS (DISABLE_ESLINT e) \<longrightarrow> es' = es"
      using h(6) h'(6) wd eo by (auto simp: eslintRules_flag)
    ultimately show "\<exists>ts' es'.
             module_rules c' = ts' @ es' @ others \<and>
             (truthyS t = truthyS (DISABLE_TSLINT e) \<longrightarrow> ts' = ts) \<and>
             (truthyS l = truthyS (DISABLE_ESLINT e) \<longrightarrow> es' = es)"
      using h'(8) o by blast
  qed
  show ?thesis
    apply (rule exI[of _ ts])
    apply (rule exI[of _ es])
    apply (rule exI[of _ others])
    apply (intro conjI h(8) others ts es no_es no_ts flags)
    done
qed

text \<open>An environment where only the disable-type-lint flag is set.\<close>

theorem C5_prepass_rules_witness:
  "truthyS (DISABLE_TSLINT (env_production\<lparr>DISABLE_TSLINT := Some ''1''\<rparr>)) \<and>
   \<not> truthyS (DISABLE_ESLINT (env_production\<lparr>DISABLE_TSLINT := Some ''1''\<rparr>)) \<and>
   (\<exists>c r others.
      buildConfig deps0 world0 (env_production\<lparr>DISABLE_TSLINT := Some ''1''\<rparr>) opts0 = Inr c \<and>
      module_rules c = r # others \<and>
      enforce r = Some ''pre'' \<and> test r = Some re_js_jsx \<and>
      list_all (\<lambda>r. enforce r = None) others)"
proof -
  let ?e = "env_production\<lparr>DISABLE_TSLINT := Some ''1''\<rparr>"
  have f: "truthyS (DISABLE_TSLINT ?e)" "\<not> truthyS (DISABLE_ESLINT ?e)"
    by (simp_all add: env_production_def)
  have cwd: "truthyS (cwd opts0)"
    by (simp add: opts0_def)
  have res: "list_all (resolves world0) (requiredModules ?e)"
    by (simp add: list_all_iff world0_resolves)
  obtain c where c: "buildConfig deps0 world0 ?e opts0 = Inr c"
    using buildConfig_succeeds[OF cwd res] by blast
  from C5_prepass_rules[OF c] obtain ts es others where
    h: "module_rules c = ts @ es @ others" "\<forall>r\<in>set others. enforce r = None"
       "if truthyS (DISABLE_TSLINT ?e) then ts = []
        else \<exists>r. ts = [r] \<and> enforce r = Some ''pre'' \<and> test r = Some re_tsx"
       "if truthyS (DISABLE_ESLINT ?e) then es = []
        else \<exists>r. es = [r] \<and> enforce r = Some ''pre'' \<and> test r = Some re_js_jsx"
    by blast
  from h(3) f(1) have "ts = []" by simp
  moreover from h(4) f(2) obtain r where
    "es = [r]" "enforce r = Some ''pre''" "test r = Some re_js_jsx"
    by auto
  ultimately have "module_rules c = r # others \<and> enforce r = Some ''pre'' \<and>
      test r = Some re_js_jsx \<and> list_all (\<lambda>r. enforce r = None) others"
    using h(1,2) by (simp add: list_all_iff)
  with c f show ?thesis by blast
qed








lemma sassStep_unresolved: "\<not> resolves w ''sass-loader'' \<Longrightarrow> sassStep w s so = []"
  by (simp add: sassStep_def resolves_def)

lemma builtRules_without_sass:
  assumes "\<not> resolves w ''sass-loader''"
  shows "\<exists>p1 d1 p2 d2 p3 d3.
     builtRules d w e opts st cs pc = [p1, d1, p2, d2, p3, d3] \<and>
     test p1 = Some re_css \<and> test d1 = Some re_css \<and>
     test p3 = Some re_sass \<and> test d3 = Some re_sass \<and>
     use p3 = use p1 \<and> use d3 = use d1 \<and>
     use (extractRule p3) = use (extractRule p1) \<and>
     use (extractRule d3) = use (extractRule d1)"
  unfolding builtRules_def
  apply (intro exI conjI)
        apply (rule refl)
       apply (simp_all add: emptyRule_def cssChain_def sassStep_unresolved[OF assms] lessStep_def)
  done

text \<open>
  C8, as stated, fails for the first preprocessor: when \<open>less-loader\<close> cannot be
  resolved, the synthesis does not return a descriptor; the failure is thrown.
\<close>

theorem C8_counterexample:
  "node_modules (world_without ''less-loader'') ''less-loader'' = None \<and>
   buildConfig deps0 (world_without ''less-loader'') env_production opts0
     = Inl (CannotFindModule ''less-loader'')"
  by (simp add: world_without_def world0_def opts0_def buildConfig_def cssRules_def
      cssRules_built_def getCSSLoader_def require_resolve_def)

text \<open>
  C8, amended.  With the working directory supplied: when every module that is resolved
  without a guard resolves and \<open>sass-loader\<close> does not, the synthesis returns a
  descriptor, and the two Sass rules in it have the chains of the two plain CSS rules,
  that is, without a preprocessor step.  The resolution of \<open>less-loader\<close> is not guarded:
  when it fails, the synthesis returns no descriptor but the failure.
\<close>

theorem C8_unresolvable_preprocessor:
  assumes "truthyS (cwd opts)"
  shows
    "(list_all (resolves w) (requiredModules e) \<and> \<not> resolves w ''sass-loader'' \<longrightarrow>
        (\<exists>c pre p1 d1 p2 d2 p3 d3.
           buildConfig d w e opts = Inr c \<and>
           module_rules c = pre @ [p1, d1, p2, d2, p3, d3] \<and>
           test p1 = Some re_css \<and> test d1 = Some re_css \<and>
           test p3 = Some re_sass \<and> test d3 = Some re_sass \<and>
           use p3 = use p1 \<and> use d3 = use d1)) \<and>
     (\<not> resolves w ''less-loader'' \<longrightarrow> (\<exists>err. buildConfig d w e opts = Inl err))"
proof (intro conjI impI)
  assume a: "list_all (resolves w) (requiredModules e) \<and> \<not> resolves w ''sass-loader''"
  then obtain c where c: "buildConfig d w e opts = Inr c"
    using buildConfig_succeeds[OF assms] by blast
  from buildConfig_cssRules[OF c] obtain pre css st cs pc where
    h: "module_rules c = pre @ css"
       "css = (if isDev e then builtRules d w e opts st cs pc
               else map extractRule (builtRules d w e opts st cs pc))"
    by blast
  from a have ns: "\<not> resolves w ''sass-loader''" by simp
  from builtRules_without_sass[OF ns] obtain p1 d1 p2 d2 p3 d3 where
    b: "builtRules d w e opts st cs pc = [p1, d1, p2, d2, p3, d3]"
       "test p3 = Some re_sass" "test d3 = Some re_sass"
       "use p3 = use p1" "use d3 = use d1"
       "use (extractRule p3) = use (extractRule p1)"
       "use (extractRule d3) = use (extractRule d1)"
    and t1: "test p1 = Some re_css" "test d1 = Some re_css"
    by blast
  have te: "test (extractRule r) = test r" for r
    by (simp split: option.splits rule_use.splits)
  show "\<exists>c pre p1 d1 p2 d2 p3 d3.
           buildConfig d w e opts = Inr c \<and>
           module_rules c = pre @ [p1, d1, p2, d2, p3, d3] \<and>
           test p1 = Some re_css \<and> test d1 = Some re_css \<and>
           test p3 = Some re_sass \<and> test d3 = Some re_sass \<and>
           use p3 = use p1 \<and> use d3 = use d1"
  proof (cases "isDev e")
    case True
    with h b(1) have "module_rules c = pre @ [p1, d1, p2, d2, p3, d3]" by simp
    with c t1 b(2-5) show ?thesis by blast
  next
    case False
    with h b(1) have "module_rules c = pre @ [extractRule p1, extractRule d1, extractRule p2,
        extractRule d2, extractRule p3, extractRule d3]"
      by simp
    moreover have "test (extractRule p1) = Some re_css" "test (extractRule d1) = Some re_css"
      "test (extractRule p3) = Some re_sass" "test (extractRule d3) = Some re_sass"
      using t1 b(2,3) by (simp_all only: te)
    ultimately show ?thesis
      using c b(6,7) by blast
  qed
next
  assume nl: "\<not> resolves w ''less-loader''"
  have "\<not> (\<exists>c. buildConfig d w e opts = Inr c)"
  proof
    assume "\<exists>c. buildConfig d w e opts = Inr c"
    then obtain c where "buildConfig d w e opts = Inr c" by blast
    from buildConfig_needs[OF this] have "resolves w ''less-loader''"
      by (simp add: requiredModules_def)
    with nl show False by simp
  qed
  then show "\<exists>err. buildConfig d w e opts = Inl err"
    by (cases "buildConfig d w e opts") auto
qed

theorem C8_unresolvable_preprocessor_witness:
  "truthyS (cwd opts0) \<and>
   list_all (resolves (world_without ''sass-loader'')) (requiredModules env_production) \<and>
   \<not> resolves (world_without ''sass-loader'') ''sass-loader'' \<and>
   (\<exists>c pre p1 d1 p2 d2 p3 d3.
      buildConfig deps0 (world_without ''sass-loader'') env_production opts0 = Inr c \<and>
      module_rules c = pre @ [p1, d1, p2, d2, p3, d3] \<and>
      test p1 = Some re_css \<and> test d1 = Some re_css \<and>
      test p3 = Some re_sass \<and> test d3 = Some re_sass \<and>
      use p3 = use p1 \<and> use d3 = use d1) \<and>
   \<not> resolves (world_without ''less-loader'') ''less-loader'' \<and>
   (\<exists>err. buildConfig deps0 (world_without ''less-loader'') env_production opts0 = Inl err)"
proof -
  have cwd: "truthyS (cwd opts0)"
    by (simp add: opts0_def)
  have res: "list_all (resolves (world_without ''sass-loader'')) (requiredModules env_production)"
    by (simp add: requiredModules_def resolves_def world_without_def world0_def)
  have ns: "\<not> resolves (world_without ''sass-loader'') ''sass-loader''"
    and nl: "\<not> resolves (world_without ''less-loader'') ''less-loader''"
    by (simp_all add: resolves_def world_without_def)
  from C8_unresolvable_preprocessor[OF cwd, of "world_without ''sass-loader''" env_production deps0]
    C8_unresolvable_preprocessor[OF cwd, of "world_without ''less-loader''" env_production deps0]
    cwd res ns nl
  show ?thesis by blast
qed

lemma map_of_obj_set: "map_of (obj_set k v a) = (map_of a)(k \<mapsto> v)"
  by (induction a) auto

lemma spread_Cons: "spread a ((k, v) # b) = spread (obj_set k v a) b"
  by (simp add: spread_def)

lemma map_of_spread:
  "distinct (map fst b) \<Longrightarrow>
   map_of (spread a b) k = (case map_of b k of Some v \<Rightarrow> Some v | None \<Rightarrow> map_of a k)"
proof (induction b arbitrary: a)
  case Nil
  then show ?case by (simp add: spread_Nil)
next
  case (Cons p b)
  obtain k' v' where p: "p = (k', v')" by (cases p)
  from Cons.prems p have d: "distinct (map fst b)" and nk: "k' \<notin> fst ` set b"
    by simp_all
  from nk have "map_of b k' = None"
    by (simp add: map_of_eq_None_iff)
  with Cons.IH[OF d, of "obj_set k' v' a"] p show ?case
    by (auto simp: spread_Cons map_of_obj_set split: option.splits)
qed

lemma eslintOptions_user_fields:
  "baseConfig (eslintOptions_user w wd eo) = baseConfig eo"
  "useEslintrc (eslintOptions_user w wd eo) = useEslintrc eo"
  "ignore (eslintOptions_user w wd eo) = ignore eo"
  by (simp_all add: eslintOptions_user_def split: option.splits prod.splits)

lemma buildConfig_returns_iff:
  "(\<exists>c. buildConfig d w e opts = Inr c) \<longleftrightarrow>
   truthyS (cwd opts) \<and> list_all (resolves w) (requiredModules e)"
  using buildConfig_succeeds buildConfig_needs by blast

lemma buildConfig_isl_readRc:
  "isl (buildConfig d (w\<lparr>readRc := f\<rparr>) e opts) = isl (buildConfig d w e opts)"
proof -
  have r: "resolves (w\<lparr>readRc := f\<rparr>) = resolves w"
    by (rule ext) (simp add: resolves_def)
  have "(\<exists>c. buildConfig d (w\<lparr>readRc := f\<rparr>) e opts = Inr c) \<longleftrightarrow>
        (\<exists>c. buildConfig d w e opts = Inr c)"
    unfolding buildConfig_returns_iff r ..
  moreover have "isl x \<longleftrightarrow> \<not> (\<exists>c. x = Inr c)" for x :: "error + config"
    by (cases x) auto
  ultimately show ?thesis by metis
qed

text \<open>
  C4, as stated, fails for a file that has an \<open>extends\<close> key with a falsy value: for
  \<open>{"extends": ""}\<close> the no-config tolerance is not disabled (\<open>useEslintrc\<close> and
  \<open>ignore\<close> stay \<open>false\<close>) and the file is merged over the defaults.
\<close>

theorem C4_counterexample:
  "existsSync (world_rc (Some [(''extends'', Str [])]))
     (path_resolve (process_cwd (world_rc (Some [(''extends'', Str [])]))) [''.eslintrc'']) \<and>
   map_of [(''extends'', Str [])] ''extends'' = Some (Str []) \<and>
   map_sum id (\<lambda>eo. (baseConfig eo, useEslintrc eo, ignore eo))
     (eslintOptions_final (world_rc (Some [(''extends'', Str [])])) ''/app'')
     = Inr (Obj [(''extends'', Str [])], False, False)"
  by (simp add: world_rc_def world0_def eslintOptions_final_def eslintOptions_default_def
      require_resolve_def eslintOptions_rc_def eslintOptions_user_def path_resolve_def
      isAbsolute_def slash_def getProp_def spread_def)

text \<open>
  C4, amended.  When the project-local lint-configuration file exists, with \<open>prior\<close>
  the lint configuration before the file is read (its base rule-set is the bundled
  default, and it neither trusts a project-local file nor ignores):
  if the reader fails, the lint configuration is \<open>prior\<close>;
  if the parsed file has a truthy \<open>extends\<close> value, the base rule-set is dropped
  (\<open>false\<close>) and \<open>useEslintrc\<close> and \<open>ignore\<close> are set;
  otherwise (no \<open>extends\<close> key, or a falsy value) only the base rule-set changes, to the
  shallow merge of the default with the file's keys: every key of the file has the file's
  value, and when the file has no \<open>extends\<close> key the default \<open>extends\<close> is kept.
  Whether the synthesis returns a descriptor never depends on what the reader does.
\<close>

theorem C4_project_lint_file:
  assumes "eslintOptions_final w wd = Inr eo"
    and "existsSync w (path_resolve (process_cwd w) [''.eslintrc''])"
  shows
    "\<exists>eo0 umi prior.
       eslintOptions_default w = Inr eo0 \<and>
       node_modules w ''eslint-config-umi'' = Some umi \<and>
       prior = eslintOptions_user w wd eo0 \<and>
       baseConfig prior = Obj [(''extends'', Arr [Str umi])] \<and>
       \<not> useEslintrc prior \<and> \<not> ignore prior \<and>
       (case readRc w (path_resolve (process_cwd w) [''.eslintrc'']) of
          None \<Rightarrow> eo = prior
        | Some userRc \<Rightarrow>
            if truthy (getProp userRc ''extends'') then
              eo = prior\<lparr>useEslintrc := True, baseConfig := Bool False, ignore := True\<rparr>
            else
              eo = prior\<lparr>baseConfig := Obj (spread [(''extends'', Arr [Str umi])] userRc)\<rparr> \<and>
              (distinct (map fst userRc) \<longrightarrow>
                 (\<forall>k v. map_of userRc k = Some v \<longrightarrow>
                    map_of (spread [(''extends'', Arr [Str umi])] userRc) k = Some v) \<and>
                 (map_of userRc ''extends'' = None \<longrightarrow>
                    map_of (spread [(''extends'', Arr [Str umi])] userRc) ''extends''
                      = Some (Arr [Str umi])))) \<and>
       (\<forall>f d e opts.
          isl (buildConfig d (w\<lparr>readRc := f\<rparr>) e opts) = isl (buildConfig d w e opts))"
proof -
  from assms(1) obtain eo0 where
    e0: "eslintOptions_default w = Inr eo0"
        "eo = eslintOptions_rc w (eslintOptions_user w wd eo0)"
    unfolding eslintOptions_final_iff by blast
  from e0(1) obtain umi es where
    u: "node_modules w ''eslint-config-umi'' = Some umi"
       "eo0 = \<lparr>formatter = Ext ''eslintFormatter'' [],
               baseConfig = Obj [(''extends'', Arr [Str umi])],
               ignore = False, eslintPath = es, useEslintrc = False\<rparr>"
    unfolding eslintOptions_default_iff by blast
  define prior where "prior = eslintOptions_user w wd eo0"
  have p: "baseConfig prior = Obj [(''extends'', Arr [Str umi])]"
    "\<not> useEslintrc prior" "\<not> ignore prior"
    by (simp_all add: prior_def eslintOptions_user_fields u(2))
  let ?rc = "readRc w (path_resolve (process_cwd w) [''.eslintrc''])"
  let ?defaults = "[(''extends'', Arr [Str umi])]"
  have rc: "case ?rc of
          None \<Rightarrow> eo = prior
        | Some userRc \<Rightarrow>
            if truthy (getProp userRc ''extends'') then
              eo = prior\<lparr>useEslintrc := True, baseConfig := Bool False, ignore := True\<rparr>
            else
              eo = prior\<lparr>baseConfig := Obj (spread ?defaults userRc)\<rparr> \<and>
              (distinct (map fst userRc) \<longrightarrow>
                 (\<forall>k v. map_of userRc k = Some v \<longrightarrow>
                    map_of (spread ?defaults userRc) k = Some v) \<and>
                 (map_of userRc ''extends'' = None \<longrightarrow>
                    map_of (spread ?defaults userRc) ''extends'' = Some (Arr [Str umi])))"
  proof (cases ?rc)
    case None
    with assms(2) e0(2) show ?thesis
      by (simp add: eslintOptions_rc_def prior_def)
  next
    case (Some userRc)
    show ?thesis
    proof (cases "truthy (getProp userRc ''extends'')")
      case True
      with Some assms(2) e0(2) show ?thesis
        by (simp add: eslintOptions_rc_def prior_def)
    next
      case False
      have "eo = prior\<lparr>baseConfig := Obj (spread ?defaults userRc)\<rparr>"
        using Some False assms(2) e0(2) p(1)
        by (simp add: eslintOptions_rc_def prior_def)
      moreover have "distinct (map fst userRc) \<longrightarrow>
                 (\<forall>k v. map_of userRc k = Some v \<longrightarrow>
                    map_of (spread ?defaults userRc) k = Some v) \<and>
                 (map_of userRc ''extends'' = None \<longrightarrow>
                    map_of (spread ?defaults userRc) ''extends'' = Some (Arr [Str umi]))"
        by (simp add: map_of_spread)
      ultimately show ?thesis
        using Some False by simp
    qed
  qed
  have total: "\<forall>f d e opts.
          isl (buildConfig d (w\<lparr>readRc := f\<rparr>) e opts) = isl (buildConfig d w e opts)"
    by (simp add: buildConfig_isl_readRc)
  show ?thesis
    apply (rule exI[of _ eo0])
    apply (rule exI[of _ umi])
    apply (rule exI[of _ prior])
    apply (intro conjI e0(1) u(1) prior_def p rc total)
    done
qed

theorem C4_project_lint_file_witness:
  "existsSync (world_rc (Some [(''rules'', Obj [(''semi'', Num 2)])]))
     (path_resolve (process_cwd (world_rc (Some [(''rules'', Obj [(''semi'', Num 2)])])))
        [''.eslintrc'']) \<and>
   distinct (map fst [(''rules'', Obj [(''semi'', Num 2)])]) \<and>
   map_sum id (\<lambda>eo. (baseConfig eo, useEslintrc eo, ignore eo))
     (eslintOptions_final (world_rc (Some [(''rules'', Obj [(''semi'', Num 2)])])) ''/app'')
     = Inr (Obj [(''extends'', Arr [Str ''/umi/node_modules/eslint-config-umi'']),
                 (''rules'', Obj [(''semi'', Num 2)])], False, False)"
proof -
  let ?w = "world_rc (Some [(''rules'', Obj [(''semi'', Num 2)])])"
  have ex: "existsSync ?w (path_resolve (process_cwd ?w) [''.eslintrc''])"
    by (simp add: world_rc_def world0_def path_resolve_def isAbsolute_def slash_def)
  have rd: "readRc ?w (path_resolve (process_cwd ?w) [''.eslintrc''])
      = Some [(''rules'', Obj [(''semi'', Num 2)])]"
    by (simp add: world_rc_def world0_def path_resolve_def isAbsolute_def slash_def)
  have "resolves ?w ''eslint-config-umi''" "resolves ?w ''eslint''"
    by (simp_all add: resolves_def world_rc_def world0_def)
  from eslintOptions_final_succeeds[OF this] obtain eo where
    eo: "eslintOptions_final ?w ''/app'' = Inr eo"
    by blast
  from C4_project_lint_file[OF eo ex] obtain eo0 umi prior where
    h: "node_modules ?w ''eslint-config-umi'' = Some umi"
       "\<not> useEslintrc prior" "\<not> ignore prior"
       "case readRc ?w (path_resolve (process_cwd ?w) [''.eslintrc'']) of
          None \<Rightarrow> eo = prior
        | Some userRc \<Rightarrow>
            if truthy (getProp userRc ''extends'') then
              eo = prior\<lparr>useEslintrc := True, baseConfig := Bool False, ignore := True\<rparr>
            else
              eo = prior\<lparr>baseConfig := Obj (spread [(''extends'', Arr [Str umi])] userRc)\<rparr> \<and>
              (distinct (map fst userRc) \<longrightarrow>
                 (\<forall>k v. map_of userRc k = Some v \<longrightarrow>
                    map_of (spread [(''extends'', Arr [Str umi])] userRc) k = Some v) \<and>
                 (map_of userRc ''extends'' = None \<longrightarrow>
                    map_of (spread [(''extends'', Arr [Str umi])] userRc) ''extends''
                      = Some (Arr [Str umi])))"
    by blast
  from h(1) have umi: "umi = ''/umi/node_modules/eslint-config-umi''"
    by (simp add: world_rc_def world0_def)
  from h(4) have "eo = prior\<lparr>baseConfig :=
      Obj (spread [(''extends'', Arr [Str umi])] [(''rules'', Obj [(''semi'', Num 2)])])\<rparr>"
    unfolding rd by (simp add: getProp_def)
  with h(2,3) umi have "baseConfig eo = Obj [(''extends'', Arr [Str ''/umi/node_modules/eslint-config-umi'']),
                 (''rules'', Obj [(''semi'', Num 2)])]" "\<not> useEslintrc eo" "\<not> ignore eo"
    by (simp_all add: spread_def)
  with eo ex show ?thesis by simp
qed

text \<open>
  C3 says that the project's own lint engine is used exactly when the project's manifest
  declares it.  The code, evaluated at two manifests of a project whose own engine
  resolves: the first declares the lint engine as a development dependency and has no
  \<open>dependencies\<close> object, and the bundled engine is kept; the second declares no lint
  engine but has a \<open>devDependencies\<close> object, and the project's engine is used.
\<close>

theorem C3_failing_inputs:
  "map_sum id eslintPath (eslintOptions_final (world_pkg pkg_dev_eslint) ''/app'')
     = Inr ''/umi/node_modules/eslint'' \<and>
   map_sum id eslintPath (eslintOptions_final (world_pkg pkg_without_eslint) ''/app'')
     = Inr ''/app/node_modules/eslint/lib/api.js''"
  by (simp add: world_pkg_def world0_def pkg_without_eslint_def pkg_dev_eslint_def
      eslintOptions_final_def eslintOptions_default_def require_resolve_def
      eslintOptions_rc_def eslintOptions_user_def path_resolve_def isAbsolute_def slash_def
      getProp_def)

text \<open>
  C9 says that every path the synthesis reads is resolved relative to the working
  directory of the options.  The code, evaluated for a project in \<open>/app\<close> while the
  process runs in \<open>/other\<close>: the output directory is resolved against the working
  directory of the options, but the manifest and the lint-configuration file are looked
  for in \<open>/other\<close>, so the project's files are not read and the lint configuration
  stays the default one.  When the process runs in \<open>/app\<close> the same project's files
  are read.
\<close>

theorem C9_failing_input:
  "cwd opts0 = Some ''/app'' \<and>
   map_sum id (\<lambda>c. path (output_sec c))
     (buildConfig deps0 (world_project ''/other'') env_production opts0) = Inr ''/app/dist'' \<and>
   path_resolve (process_cwd (world_project ''/other'')) [''package.json'']
     = ''/other/package.json'' \<and>
   path_resolve (process_cwd (world_project ''/other'')) [''.eslintrc''] = ''/other/.eslintrc'' \<and>
   map_sum id (\<lambda>eo. (useEslintrc eo, eslintPath eo))
     (eslintOptions_final (world_project ''/other'') ''/app'')
     = Inr (False, ''/umi/node_modules/eslint'') \<and>
   map_sum id (\<lambda>eo. (useEslintrc eo, eslintPath eo))
     (eslintOptions_final (world_project ''/app'') ''/app'')
     = Inr (True, ''/app/node_modules/eslint/lib/api.js'')"
proof -
  have res: "list_all (resolves (world_project ''/other'')) (requiredModules env_production)"
    by (simp add: requiredModules_def resolves_def world_project_def world0_def)
  have cwd: "cwd opts0 = Some ''/app''" "truthyS (cwd opts0)" "outputPath opts0 = None"
    by (simp_all add: opts0_def)
  from buildConfig_succeeds[OF cwd(2) res] obtain c where
    c: "buildConfig deps0 (world_project ''/other'') env_production opts0 = Inr c"
    by blast
  from buildConfig_output[OF c] cwd(1)
  have "path (output_sec c) = outputPath_of (world_project ''/other'') opts0 ''/app''"
    by auto
  then have out: "path (output_sec c) = ''/app/dist''"
    by (simp add: outputPath_of_def cwd(3) world_project_def path_resolve_def isAbsolute_def
        slash_def)
  have paths: "path_resolve (process_cwd (world_project ''/other'')) [''package.json'']
     = ''/other/package.json''"
    "path_resolve (process_cwd (world_project ''/other'')) [''.eslintrc''] = ''/other/.eslintrc''"
    by (simp_all add: world_project_def path_resolve_def isAbsolute_def slash_def)
  have lint: "map_sum id (\<lambda>eo. (useEslintrc eo, eslintPath eo))
     (eslintOptions_final (world_project ''/other'') ''/app'')
     = Inr (False, ''/umi/node_modules/eslint'')"
    "map_sum id (\<lambda>eo. (useEslintrc eo, eslintPath eo))
     (eslintOptions_final (world_project ''/app'') ''/app'')
     = Inr (True, ''/app/node_modules/eslint/lib/api.js'')"
    by (simp_all add: world_project_def world0_def eslintOptions_final_def
        eslintOptions_default_def require_resolve_def eslintOptions_rc_def
        eslintOptions_user_def path_resolve_def isAbsolute_def slash_def getProp_def)
  from cwd(1) c out paths lint show ?thesis by simp
qed

end
